(* ===== verification/Hash_Prelude.thy ===== *)
theory Hash_Prelude
  imports Main "HOL-Library.Word"
begin

unbundle bit_operations_syntax

text \<open>
  Shared vocabulary of the GPSHash development (\<^verbatim>\<open>src/gpshash.go\<close>).
  Every hash function of the package has the signature
  \<^verbatim>\<open>func H(str string) uint\<close> and is a single \<^verbatim>\<open>for i := 0; i < len(str); i++\<close>
  loop that folds the bytes \<^verbatim>\<open>str[i]\<close> into an accumulator.
  \<^item> A Go \<^verbatim>\<open>string\<close> is an immutable byte sequence, indexed by byte: \<open>gostring\<close>
    is a list of \<open>8 word\<close>.
  \<^item> Go's \<^verbatim>\<open>uint\<close> is the machine word, 32 or 64 bits: it is \<open>'a::len word\<close>, with
    the width left as a type parameter; \<open>+\<close>, \<open>-\<close>, \<open>*\<close> wrap around as Go's
    unsigned arithmetic does, \<^verbatim>\<open><<\<close> is \<open>push_bit\<close>, \<^verbatim>\<open>>>\<close> on an unsigned
    operand is the logical \<open>drop_bit\<close>, \<^verbatim>\<open>^x\<close> is \<open>NOT\<close>, \<^verbatim>\<open>&\<close>,
    \<^verbatim>\<open>|\<close>, \<^verbatim>\<open>^\<close> are \<open>AND\<close>, \<open>OR\<close>, \<open>XOR\<close>.
  \<^item> The conversion \<^verbatim>\<open>uint(str[i])\<close> zero-extends a byte: \<open>widen\<close>.
  \<^item> The loop itself is \<open>foldl\<close> of the loop body over the byte list, so the
    library's \<open>foldl\<close> laws (\<open>foldl_append\<close>, \<open>foldl_Cons\<close>) carry the proofs.

  The theory also holds the abstract specification shared by the multiplicative hashes:
  \<open>horner c h bs\<close>, the positional value \<open>h\<cdot>c\<^sup>n + \<Sum> b\<^sub>i\<cdot>c\<^sup>n\<^sup>-\<^sup>1\<^sup>-\<^sup>i\<close> over the
  unbounded integers, and the lemma that the wrapping loop \<open>h := h * c + b\<close> computes it
  modulo \<open>2\<^sup>W\<close>, and that for an odd multiplier the loop never merges two accumulators.
\<close>

section \<open>Types of the model\<close>

type_synonym byte = "8 word"
type_synonym gostring = "byte list"

text \<open>\<^verbatim>\<open>uint(str[i])\<close>: a byte widened (zero-extended) to the accumulator's width.\<close>

definition widen :: "byte \<Rightarrow> 'a::len word" where
  "widen c = ucast c"

text \<open>A Go string literal of ASCII characters as the bytes the Go program sees.\<close>

definition go_string :: "string \<Rightarrow> gostring" where
  "go_string s = map (\<lambda>ch. of_nat (of_char ch)) s"

named_theorems hash_defs "loop bodies and entry points of the Go hash functions"

declare widen_def [hash_defs] go_string_def [hash_defs]

section \<open>The abstract multiplicative hash\<close>

text \<open>
  \<open>horner c h bs\<close> feeds the bytes into \<open>h := h \<cdot> c + b\<close> over \<open>int\<close>: no width, no
  wrap-around. It is the mathematical function that BKDR, DJB and SDBM compute modulo
  \<open>2\<^sup>W\<close>.
\<close>

fun horner :: "int \<Rightarrow> int \<Rightarrow> byte list \<Rightarrow> int" where
  "horner c h [] = h"
| "horner c h (b # bs) = horner c (h * c + uint b) bs"

text \<open>One iteration \<open>hash = hash * c + uint(str[i])\<close> on the machine word.\<close>

definition mul_add_step :: "'a::len word \<Rightarrow> 'a word \<Rightarrow> byte \<Rightarrow> 'a word" where
  "mul_add_step c h b = h * c + widen b"

section \<open>Generic lemmas\<close>

subsection \<open>Bytes widened to the word\<close>

lemma widen_word_of_int: "(widen b :: 'a::len word) = word_of_int (uint b)"
  unfolding widen_def by (rule ucast_eq)

lemma widen_0 [simp]: "widen 0 = 0"
  by (simp add: widen_def)

lemma uint_widen:
  "8 \<le> LENGTH('a) \<Longrightarrow> uint (widen b :: 'a::len word) = uint b"
  by (simp add: widen_def uint_up_ucast is_up)

lemma widen_less_256:
  "8 \<le> LENGTH('a) \<Longrightarrow> uint (widen b :: 'a::len word) < 256"
  using uint_lt2p [of b] by (simp add: uint_widen)

lemma widen_inj_iff:
  "8 \<le> LENGTH('a) \<Longrightarrow> (widen b :: 'a::len word) = widen b' \<longleftrightarrow> b = b'"
  by (metis uint_widen word_uint_eq_iff)

lemma bit_widen: "bit (widen c :: 'a::len word) n \<longleftrightarrow> n < LENGTH('a) \<and> bit c n"
  by (auto simp: widen_def bit_word_ucast_iff dest: bit_imp_le_length)

text \<open>Bit \<open>j\<close> of the byte \<open>uint8(w >> d)\<close> is bit \<open>d + j\<close> of \<open>w\<close>.\<close>

lemma bit_byte_of_drop_bit:
  "bit (ucast (drop_bit d w) :: byte) j \<longleftrightarrow> j < 8 \<and> bit (w :: 'a::len word) (d + j)"
  by (auto simp: bit_simps bit_word_ucast_iff)

text \<open>Truncating a word to a narrower one (\<^verbatim>\<open>uint32(x)\<close> of a 64-bit \<open>x\<close>) commutes with
  \<open>+\<close>, with \<open><<\<close> and with the widening of a byte.\<close>

lemma ucast_down_word_of_int:
  "LENGTH('b) \<le> LENGTH('a) \<Longrightarrow> (ucast (word_of_int z :: 'a::len word) :: 'b::len word) = word_of_int z"
  by (rule ucast_down_wi) (simp add: is_down)

lemma ucast_down_add:
  "LENGTH('b) \<le> LENGTH('a) \<Longrightarrow> (ucast (x + y :: 'a::len word) :: 'b::len word) = ucast x + ucast y"
proof -
  assume le: "LENGTH('b) \<le> LENGTH('a)"
  have wi: "(ucast (word_of_int z :: 'a word) :: 'b word) = word_of_int z" for z
    using le by (rule ucast_down_word_of_int)
  from wi [of "uint x + uint y"] wi [of "uint x"] wi [of "uint y"] show ?thesis
    by (simp only: of_int_add word_of_int_uint)
qed

lemma ucast_down_mult:
  "LENGTH('b) \<le> LENGTH('a) \<Longrightarrow> (ucast (x * y :: 'a::len word) :: 'b::len word) = ucast x * ucast y"
proof -
  assume le: "LENGTH('b) \<le> LENGTH('a)"
  have wi: "(ucast (word_of_int z :: 'a word) :: 'b word) = word_of_int z" for z
    using le by (rule ucast_down_word_of_int)
  from wi [of "uint x * uint y"] wi [of "uint x"] wi [of "uint y"] show ?thesis
    by (simp only: of_int_mult word_of_int_uint)
qed

lemma ucast_xor: "(ucast (x XOR y :: 'a::len word) :: 'b::len word) = ucast x XOR ucast y"
  by (rule bit_word_eqI) (auto simp: bit_simps bit_word_ucast_iff)

lemma ucast_widen: "LENGTH('b) \<le> LENGTH('a) \<Longrightarrow> (ucast (widen c :: 'a::len word) :: 'b::len word) = widen c"
  by (rule bit_word_eqI) (auto simp: bit_widen bit_word_ucast_iff)

lemma ucast_push_bit_down: "LENGTH('b) \<le> LENGTH('a) \<Longrightarrow> (ucast (push_bit k x :: 'a::len word) :: 'b::len word) = push_bit k (ucast x)"
  by (rule bit_word_eqI) (auto simp: bit_simps bit_word_ucast_iff)

subsection \<open>Words\<close>

lemma xor_cancel_right_iff: "(x XOR c = y XOR c) \<longleftrightarrow> x = (y::'a::len word)"
  by (metis bit.xor_left_self xor.commute)

lemma xor_cancel_left_iff: "(c XOR x = c XOR y) \<longleftrightarrow> x = (y::'a::len word)"
  by (metis bit.xor_left_self)

lemma odd_word_nonzero: "odd (x::'a::len word) \<Longrightarrow> x \<noteq> 0"
  by auto

lemma odd_uint: "odd (c::'a::len word) \<Longrightarrow> odd (uint c)"
  using bit_uint_iff [of c 0] by (simp add: bit_0)

text \<open>Multiplication by an odd word is injective: an odd number is a unit modulo \<open>2\<^sup>W\<close>.\<close>

lemma odd_mult_cancel:
  fixes x y c :: "'a::len word"
  assumes "odd c" and "x * c = y * c"
  shows "x = y"
proof -
  have oc: "odd (uint c)" using assms(1) by (rule odd_uint)
  have "uint (x * c) = uint (y * c)" using assms(2) by simp
  then have "(uint x * uint c) mod 2 ^ LENGTH('a) = (uint y * uint c) mod 2 ^ LENGTH('a)"
    by (simp add: uint_word_ariths)
  then have "(2::int) ^ LENGTH('a) dvd (uint x - uint y) * uint c"
    by (simp add: mod_eq_dvd_iff left_diff_distrib)
  moreover have "coprime ((2::int) ^ LENGTH('a)) (uint c)"
    using oc by simp
  ultimately have "(2::int) ^ LENGTH('a) dvd (uint x - uint y)"
    using coprime_dvd_mult_left_iff by blast
  then have "uint x mod 2 ^ LENGTH('a) = uint y mod 2 ^ LENGTH('a)"
    by (simp only: mod_eq_dvd_iff)
  then have "uint x = uint y"
    by (simp only: uint_idem)
  then show ?thesis using word_uint_eq_iff by blast
qed

lemma odd_mult_cancel_iff:
  "odd (c::'a::len word) \<Longrightarrow> x * c = y * c \<longleftrightarrow> x = y"
  using odd_mult_cancel by blast

subsection \<open>The positional value\<close>

lemma horner_append [simp]: "horner c h (xs @ ys) = horner c (horner c h xs) ys"
  by (induction xs arbitrary: h) simp_all

lemma horner_linear: "horner c h bs = h * c ^ length bs + horner c 0 bs"
proof (induction bs arbitrary: h)
  case Nil
  then show ?case by simp
next
  case (Cons b bs)
  have "horner c (h * c + uint b) bs = (h * c + uint b) * c ^ length bs + horner c 0 bs"
    by (rule Cons.IH)
  moreover have "horner c (uint b) bs = uint b * c ^ length bs + horner c 0 bs"
    by (rule Cons.IH)
  ultimately show ?case by (simp add: algebra_simps)
qed

subsection \<open>The wrapping loop computes the positional value modulo \<open>2\<^sup>W\<close>\<close>

lemma mul_add_refines:
  "foldl (mul_add_step (word_of_int c)) (word_of_int h) bs
     = (word_of_int (horner c h bs) :: 'a::len word)"
proof (induction bs arbitrary: h)
  case Nil
  then show ?case by simp
next
  case (Cons b bs)
  have step: "mul_add_step (word_of_int c) (word_of_int h) b
          = (word_of_int (h * c + uint b) :: 'a word)"
    unfolding mul_add_step_def widen_word_of_int by (simp only: wi_hom_syms)
  show ?case by (simp only: foldl_Cons horner.simps step Cons.IH)
qed

text \<open>The start value of the loop is only multiplied by \<open>c\<^sup>n\<close>.\<close>

lemma mul_add_loop_linear:
  "foldl (mul_add_step c) h bs = h * c ^ length bs + foldl (mul_add_step c) 0 bs"
proof (induction bs arbitrary: h)
  case Nil
  then show ?case by simp
next
  case (Cons b bs)
  have e1: "mul_add_step c h b = h * c + widen b" and e0: "mul_add_step c 0 b = widen b"
    by (simp_all add: mul_add_step_def)
  have "foldl (mul_add_step c) h (b # bs)
          = (h * c + widen b) * c ^ length bs + foldl (mul_add_step c) 0 bs"
    by (simp only: foldl_Cons e1) (rule Cons.IH)
  moreover have "foldl (mul_add_step c) 0 (b # bs)
          = widen b * c ^ length bs + foldl (mul_add_step c) 0 bs"
    by (simp only: foldl_Cons e0) (rule Cons.IH)
  ultimately show ?case by (simp del: foldl_Cons add: algebra_simps)
qed

text \<open>
  A loop whose body is injective in the accumulator, for each byte, neither creates nor
  destroys a collision of the accumulators over a common suffix.
\<close>

lemma foldl_inj_cancel:
  assumes "\<And>x y c. f x c = f y c \<Longrightarrow> x = y"
  shows "foldl f h zs = foldl f h' zs \<longleftrightarrow> h = h'"
proof (induction zs arbitrary: h h')
  case Nil
  then show ?case by simp
next
  case (Cons z zs)
  then show ?case using assms by auto
qed

text \<open>A loop whose body commutes with truncating the accumulator commutes with it too.\<close>

lemma foldl_ucast:
  assumes "\<And>h c. (ucast (f h c :: 'a::len word) :: 'b::len word) = g (ucast h) c"
  shows "(ucast (foldl f h xs) :: 'b word) = foldl g (ucast h) xs"
  by (induction xs arbitrary: h) (simp_all add: assms)

text \<open>With an odd multiplier the multiply-add body is injective.\<close>

lemma mul_add_loop_cancel:
  assumes "odd c"
  shows "foldl (mul_add_step c) h zs = foldl (mul_add_step c) h' zs \<longleftrightarrow> h = h'"
  by (rule foldl_inj_cancel) (simp add: mul_add_step_def odd_mult_cancel_iff [OF assms])

end
