(* ===== verification/Multiplicative_Hashes.thy ===== *)
theory Multiplicative_Hashes
  imports Hash_Prelude
begin

text \<open>
  The hashes of \<^verbatim>\<open>src/gpshash.go\<close> whose loop body uses ring operations only:
  \<^verbatim>\<open>BKDR\<close> (\<open>hash * 131 + b\<close>), \<^verbatim>\<open>DJB\<close> (\<open>(hash << 5) + hash + b\<close>),
  \<^verbatim>\<open>SDBM\<close> (\<open>b + (hash << 6) + (hash << 16) - hash\<close>) and \<^verbatim>\<open>RS\<close> (\<open>hash * a + b\<close>
  with a multiplier \<open>a\<close> that is itself multiplied by \<open>378551\<close> after every byte).
  Each is modelled by its loop body (\<open>_step\<close>) and its entry point, the body folded
  over the string from the initial accumulator. The lemmas show that the shift-and-add
  bodies are multiplications by \<open>33\<close> and \<open>65599\<close>, that every function computes its
  unbounded integer specification modulo \<open>2\<^sup>W\<close>, and that a common suffix never
  creates or removes a collision, because every multiplier is odd. The RS loop is also
  given as an inductive transition system, \<open>rs_reachable\<close>, whose reachable states are
  exactly the loop's states, that is, the integer recurrence's values after some string
  reduced modulo \<open>2\<^sup>W\<close>, and whose multiplier is always odd (rule induction).
\<close>

section \<open>BKDR\<close>

text \<open>\<^verbatim>\<open>hash = (hash * seed) + uint(str[i])\<close>, with \<^verbatim>\<open>var seed uint = 131\<close>.\<close>

definition BKDR_step :: "'a::len word \<Rightarrow> 'a word \<Rightarrow> byte \<Rightarrow> 'a word" where
  "BKDR_step seed hash c = (hash * seed) + widen c"

definition BKDR :: "gostring \<Rightarrow> 'a::len word" where
  "BKDR str = (let seed = 131 in foldl (BKDR_step seed) 0 str)"

section \<open>DJB\<close>

text \<open>\<^verbatim>\<open>hash = ((hash << 5) + hash) + uint(str[i])\<close>, from \<open>5381\<close>.\<close>

definition DJB_step :: "'a::len word \<Rightarrow> byte \<Rightarrow> 'a word" where
  "DJB_step hash c = ((push_bit 5 hash) + hash) + widen c"

definition DJB :: "gostring \<Rightarrow> 'a::len word" where
  "DJB str = foldl DJB_step 5381 str"

section \<open>SDBM\<close>

text \<open>\<^verbatim>\<open>hash = uint(str[i]) + (hash << 6) + (hash << 16) - hash\<close>, from \<open>0\<close>.\<close>

definition SDBM_step :: "'a::len word \<Rightarrow> byte \<Rightarrow> 'a word" where
  "SDBM_step hash c = widen c + (push_bit 6 hash) + (push_bit 16 hash) - hash"

definition SDBM :: "gostring \<Rightarrow> 'a::len word" where
  "SDBM str = foldl SDBM_step 0 str"

section \<open>RS\<close>

text \<open>
  The loop of \<^verbatim>\<open>RS\<close> keeps two variables, \<^verbatim>\<open>hash\<close> and the multiplier \<^verbatim>\<open>a\<close>;
  \<^verbatim>\<open>b = 378551\<close> never changes. The body updates \<^verbatim>\<open>hash\<close> with the old \<^verbatim>\<open>a\<close>
  first, then \<^verbatim>\<open>a\<close>.
\<close>

record 'w rs_state =
  rs_hash :: 'w
  rs_a :: 'w

definition RS_step :: "'a::len word \<Rightarrow> 'a word rs_state \<Rightarrow> byte \<Rightarrow> 'a word rs_state" where
  "RS_step b s c =
     (let s' = s\<lparr>rs_hash := rs_hash s * rs_a s + widen c\<rparr>
      in s'\<lparr>rs_a := rs_a s' * b\<rparr>)"

definition RS_init :: "'a::len word rs_state" where
  "RS_init = \<lparr>rs_hash = 0, rs_a = 63689\<rparr>"

definition RS :: "gostring \<Rightarrow> 'a::len word" where
  "RS str = (let b = 378551 in rs_hash (foldl (RS_step b) RS_init str))"

text \<open>
  The unbounded specification of \<^verbatim>\<open>RS\<close>: the same recurrence over \<open>int\<close>, the
  multiplier growing without bound.
\<close>

fun rs_spec :: "int \<Rightarrow> int \<Rightarrow> int \<Rightarrow> byte list \<Rightarrow> int" where
  "rs_spec b a h [] = h"
| "rs_spec b a h (c # cs) = rs_spec b (a * b) (h * a + uint c) cs"

text \<open>
  The states the loop of \<^verbatim>\<open>RS\<close> can be in at the top of an iteration: the initial
  assignment, and whatever one execution of the body makes of a reachable state.
\<close>

inductive rs_reachable :: "'a::len word rs_state \<Rightarrow> bool" where
  rs_start: "rs_reachable RS_init"
| rs_iter: "rs_reachable s \<Longrightarrow> rs_reachable (RS_step 378551 s c)"

declare BKDR_step_def [hash_defs] BKDR_def [hash_defs] DJB_step_def [hash_defs]
  DJB_def [hash_defs] SDBM_step_def [hash_defs] SDBM_def [hash_defs]
  RS_step_def [hash_defs] RS_init_def [hash_defs] RS_def [hash_defs]

section \<open>The loop bodies as multiply-add steps\<close>

lemma BKDR_step_mul_add: "BKDR_step seed = mul_add_step seed"
  by (simp add: fun_eq_iff BKDR_step_def mul_add_step_def)

text \<open>The DJB loop body ((hash << 5) + hash) + b equals hash*33 + b modulo 2^W.\<close>

theorem DJB_step_is_times_33: "DJB_step hash c = hash * 33 + widen c"
  by (simp add: DJB_step_def push_bit_eq_mult algebra_simps)

lemma DJB_step_mul_add: "DJB_step = mul_add_step 33"
  by (simp add: fun_eq_iff DJB_step_def mul_add_step_def push_bit_eq_mult algebra_simps)

text \<open>The SDBM loop body b + (hash << 6) + (hash << 16) - hash equals hash*65599 + b modulo 2^W.\<close>

theorem SDBM_step_is_times_65599: "SDBM_step hash c = hash * 65599 + widen c"
  by (simp add: SDBM_step_def push_bit_eq_mult algebra_simps)

lemma SDBM_step_mul_add: "SDBM_step = mul_add_step 65599"
  by (simp add: fun_eq_iff SDBM_step_def mul_add_step_def push_bit_eq_mult algebra_simps)

section \<open>Refinement: the word functions compute the integer specification modulo \<open>2\<^sup>W\<close>\<close>

text \<open>C2: BKDR computes the base-131 positional value of the bytes over the integers, reduced modulo 2^W.\<close>

theorem BKDR_refines_horner: "(BKDR str :: 'a::len word) = word_of_int (horner 131 0 str)"
  using mul_add_refines [of 131 0 str] by (simp add: BKDR_def BKDR_step_mul_add)

text \<open>C1: DJB computes 5381*33^n + sum of b_i*33^(n-1-i) over the integers, reduced modulo 2^W.\<close>

theorem DJB_refines_horner: "(DJB str :: 'a::len word) = word_of_int (horner 33 5381 str)"
proof -
  have "(DJB_step :: 'a word \<Rightarrow> byte \<Rightarrow> 'a word) = mul_add_step 33"
    by (simp add: fun_eq_iff DJB_step_def mul_add_step_def push_bit_eq_mult algebra_simps)
  then have "foldl DJB_step 5381 str = (foldl (mul_add_step 33) 5381 str :: 'a word)"
    by simp
  also have "\<dots> = (word_of_int (horner 33 5381 str) :: 'a word)"
    using mul_add_refines [of 33 5381 str] by simp
  finally show ?thesis by (simp only: DJB_def)
qed

text \<open>C3: SDBM computes the base-65599 positional value of the bytes over the integers, reduced modulo 2^W.\<close>

theorem SDBM_refines_horner: "(SDBM str :: 'a::len word) = word_of_int (horner 65599 0 str)"
proof -
  have "(SDBM_step :: 'a word \<Rightarrow> byte \<Rightarrow> 'a word) = mul_add_step 65599"
    by (simp add: fun_eq_iff SDBM_step_def mul_add_step_def push_bit_eq_mult algebra_simps)
  then have "foldl SDBM_step 0 str = (foldl (mul_add_step 65599) 0 str :: 'a word)"
    by simp
  also have "\<dots> = (word_of_int (horner 65599 0 str) :: 'a word)"
    using mul_add_refines [of 65599 0 str] by simp
  finally show ?thesis by (simp only: SDBM_def)
qed

section \<open>Common suffixes and collisions\<close>

lemma odd_multipliers: "odd (131::'a::len word)" "odd (33::'a::len word)"
  "odd (65599::'a::len word)" "odd (378551::'a::len word)" "odd (63689::'a::len word)"
  by simp_all

text \<open>Since 33 is odd, appending a common suffix to two strings neither creates nor removes a DJB collision.\<close>

theorem DJB_suffix_collision:
  "(DJB (xs @ zs) :: 'a::len word) = DJB (ys @ zs) \<longleftrightarrow> (DJB xs :: 'a word) = DJB ys"
  by (simp add: DJB_def DJB_step_mul_add mul_add_loop_cancel)

text \<open>Since 131 is odd, appending a common suffix to two strings neither creates nor removes a BKDR collision.\<close>

theorem BKDR_suffix_collision:
  "(BKDR (xs @ zs) :: 'a::len word) = BKDR (ys @ zs) \<longleftrightarrow> (BKDR xs :: 'a word) = BKDR ys"
  by (simp add: BKDR_def BKDR_step_mul_add mul_add_loop_cancel)

text \<open>Since 65599 is odd, appending a common suffix to two strings neither creates nor removes an SDBM collision.\<close>

theorem SDBM_suffix_collision:
  "(SDBM (xs @ zs) :: 'a::len word) = SDBM (ys @ zs) \<longleftrightarrow> (SDBM xs :: 'a word) = SDBM ys"
  by (simp add: SDBM_def SDBM_step_mul_add mul_add_loop_cancel)

section \<open>RS: the multiplier and the hash\<close>

lemma RS_step_fields [simp]:
  "rs_hash (RS_step b s c) = rs_hash s * rs_a s + widen c"
  "rs_a (RS_step b s c) = rs_a s * b"
  by (simp_all add: RS_step_def Let_def)

text \<open>After \<open>n\<close> bytes the multiplier is the initial one times \<open>b\<^sup>n\<close>, whatever the bytes.\<close>

lemma RS_loop_multiplier:
  "rs_a (foldl (RS_step b) s cs) = rs_a s * b ^ length cs"
  by (induction cs arbitrary: s) (simp_all add: algebra_simps)

text \<open>After n bytes the RS multiplier a is 63689*378551^n modulo 2^W, whatever the bytes.\<close>

theorem RS_multiplier_after:
  "rs_a (foldl (RS_step 378551) RS_init str :: 'a::len word rs_state)
     = 63689 * 378551 ^ length str"
  by (simp add: RS_loop_multiplier RS_init_def)

text \<open>
  The loop of RS from any state of integers: the hash follows \<open>rs_spec\<close> and the
  multiplier is the start one times \<open>b\<^sup>n\<close>, both modulo \<open>2\<^sup>W\<close>.
\<close>

lemma RS_loop_state_spec:
  "foldl (RS_step (word_of_int b)) \<lparr>rs_hash = word_of_int h, rs_a = word_of_int a\<rparr> cs
   = (\<lparr>rs_hash = word_of_int (rs_spec b a h cs), rs_a = word_of_int (a * b ^ length cs)\<rparr>
        :: 'a::len word rs_state)"
proof (induction cs arbitrary: a h)
  case Nil
  then show ?case by simp
next
  case (Cons c cs)
  have "RS_step (word_of_int b) \<lparr>rs_hash = word_of_int h, rs_a = word_of_int a\<rparr> c
        = (\<lparr>rs_hash = word_of_int (h * a + uint c), rs_a = word_of_int (a * b)\<rparr> :: 'a word rs_state)"
    by (simp add: RS_step_def Let_def widen_def wi_hom_syms)
  then show ?case
    using Cons.IH [where a = "a * b" and h = "h * a + uint c"] by (simp add: ac_simps)
qed

text \<open>C4: RS computes its recurrence hash := hash*a + b, a := a*378551 over the unbounded integers, reduced modulo 2^W.\<close>

theorem RS_refines_spec: "(RS str :: 'a::len word) = word_of_int (rs_spec 378551 63689 0 str)"
proof -
  have eq: "foldl (RS_step 378551) RS_init str
      = (\<lparr>rs_hash = word_of_int (rs_spec 378551 63689 0 str),
          rs_a = word_of_int (63689 * 378551 ^ length str)\<rparr> :: 'a word rs_state)"
    using RS_loop_state_spec [of 378551 0 63689 str] by (simp add: RS_init_def)
  show ?thesis by (simp add: RS_def eq)
qed

text \<open>
  From two states with the same odd multiplier, the loop keeps the multipliers equal and
  maps equal hashes to equal hashes and distinct ones to distinct ones.
\<close>

lemma RS_loop_cancel:
  assumes "odd b" and "odd (rs_a s)" and "rs_a s' = rs_a s"
  shows "rs_hash (foldl (RS_step b) s zs) = rs_hash (foldl (RS_step b) s' zs)
           \<longleftrightarrow> rs_hash s = rs_hash s'"
  using assms(2,3)
proof (induction zs arbitrary: s s')
  case Nil
  then show ?case by simp
next
  case (Cons z zs)
  have "odd (rs_a (RS_step b s z))" and "rs_a (RS_step b s' z) = rs_a (RS_step b s z)"
    using Cons.prems assms(1) by simp_all
  then have "rs_hash (foldl (RS_step b) (RS_step b s z) zs)
               = rs_hash (foldl (RS_step b) (RS_step b s' z) zs)
             \<longleftrightarrow> rs_hash (RS_step b s z) = rs_hash (RS_step b s' z)"
    by (rule Cons.IH)
  also have "\<dots> \<longleftrightarrow> rs_hash s = rs_hash s'"
    using Cons.prems odd_mult_cancel_iff [of "rs_a s"] by simp
  finally show ?case by simp
qed

text \<open>C30: For two strings of equal length, appending a common suffix neither creates nor removes an RS collision, because RS's multiplier stays odd and depends only on the position.\<close>

theorem RS_suffix_collision:
  assumes "length xs = length ys"
  shows "(RS (xs @ zs) :: 'a::len word) = RS (ys @ zs) \<longleftrightarrow> (RS xs :: 'a word) = RS ys"
proof -
  let ?s = "foldl (RS_step 378551) RS_init xs :: 'a word rs_state"
  let ?s' = "foldl (RS_step 378551) RS_init ys :: 'a word rs_state"
  have "odd (rs_a ?s)" and "rs_a ?s' = rs_a ?s"
    using assms by (simp_all add: RS_loop_multiplier RS_init_def)
  then show ?thesis
    using RS_loop_cancel [of 378551 ?s ?s' zs] by (simp add: RS_def)
qed

theorem RS_suffix_collision_witness:
  "length [1::byte] = length [2::byte]
   \<and> ((RS ([1] @ [3]) :: 64 word) = RS ([2] @ [3]) \<longleftrightarrow> (RS [1] :: 64 word) = RS [2])"
  using RS_suffix_collision [of "[1]" "[2]" "[3]", where 'a = 64] by simp

section \<open>RS as a transition system\<close>

text \<open>The reachable states are the states of the loop after some string.\<close>

lemma rs_reachable_loop_state:
  "rs_reachable s \<longleftrightarrow> (\<exists>str. s = foldl (RS_step 378551) RS_init str)"
proof
  assume "rs_reachable s"
  then show "\<exists>str. s = foldl (RS_step 378551) RS_init str"
  proof (induction rule: rs_reachable.induct)
    case rs_start
    have "RS_init = foldl (RS_step 378551) RS_init []" by simp
    then show ?case by blast
  next
    case (rs_iter s c)
    then obtain str where "s = foldl (RS_step 378551) RS_init str" by blast
    then have "RS_step 378551 s c = foldl (RS_step 378551) RS_init (str @ [c])" by simp
    then show ?case by blast
  qed
next
  assume "\<exists>str. s = foldl (RS_step 378551) RS_init str"
  then obtain str where s: "s = foldl (RS_step 378551) RS_init str" by blast
  have "rs_reachable (foldl (RS_step 378551) RS_init str :: 'a word rs_state)"
  proof (induction str rule: rev_induct)
    case Nil
    then show ?case by (simp add: rs_start)
  next
    case (snoc c str)
    then show ?case by (simp add: rs_iter)
  qed
  with s show "rs_reachable s" by simp
qed

text \<open>C14: The states the RS loop reaches are exactly those whose hash and multiplier are, modulo 2^W, the values of the integer recurrence after some string: hash = rs_spec 378551 63689 0 str and a = 63689 * 378551^len(str).\<close>

theorem rs_reachable_states:
  "rs_reachable (s :: 'a::len word rs_state)
   \<longleftrightarrow> (\<exists>str. s = \<lparr>rs_hash = word_of_int (rs_spec 378551 63689 0 str),
                   rs_a = word_of_int (63689 * 378551 ^ length str)\<rparr>)"
proof -
  have "foldl (RS_step 378551) RS_init str
        = (\<lparr>rs_hash = word_of_int (rs_spec 378551 63689 0 str),
            rs_a = word_of_int (63689 * 378551 ^ length str)\<rparr> :: 'a word rs_state)" for str
    using RS_loop_state_spec [of 378551 0 63689 str] by (simp add: RS_init_def)
  then show ?thesis by (simp add: rs_reachable_loop_state)
qed

text \<open>C13: In every state the RS loop reaches, the multiplier a is odd, hence never 0: the map hash -> hash*a + b stays a bijection and RS never collapses to a constant.\<close>

theorem rs_reachable_multiplier_odd:
  "rs_reachable s \<Longrightarrow> odd (rs_a s) \<and> rs_a s \<noteq> 0"
proof (induction rule: rs_reachable.induct)
  case rs_start
  have "odd (rs_a (RS_init :: 'a word rs_state))" by (simp add: RS_init_def)
  then show ?case by (simp add: odd_word_nonzero)
next
  case (rs_iter s c)
  then have "odd (rs_a s * 378551)" by simp
  then show ?case by (simp add: odd_word_nonzero)
qed

theorem rs_reachable_multiplier_odd_witness:
  "rs_reachable (RS_step 378551 RS_init 97 :: 64 word rs_state)
   \<and> odd (rs_a (RS_step 378551 RS_init 97 :: 64 word rs_state))
   \<and> rs_a (RS_step 378551 RS_init 97 :: 64 word rs_state) \<noteq> 0"
proof -
  have r: "rs_reachable (RS_step 378551 RS_init 97 :: 64 word rs_state)"
    by (rule rs_iter [OF rs_start])
  show ?thesis using r rs_reachable_multiplier_odd [OF r] by simp
qed

end
