(* ===== verification/Shift_Xor_Hashes.thy ===== *)
theory Shift_Xor_Hashes
  imports Hash_Prelude
begin

text \<open>
  The hashes of \<^verbatim>\<open>src/gpshash.go\<close> whose loop body mixes shifts with exclusive or:
  \<^verbatim>\<open>BP\<close> (\<open>hash << 7 ^ b\<close>), \<^verbatim>\<open>FNV\<close> (\<open>hash *= prime; hash ^= b\<close>),
  \<^verbatim>\<open>JS\<close> (\<open>hash ^= (hash << 5) + b + (hash >> 2)\<close>) and \<^verbatim>\<open>DEK\<close>
  (\<open>((hash << 5) ^ (hash >> 27)) ^ b\<close>, seeded with the length of the string).
  The lemmas show that BP forgets every byte more than \<open>\<lceil>W/7\<rceil>\<close> places from the end,
  that FNV starts from \<open>0\<close> so that leading NUL bytes vanish while a common suffix never
  creates a collision, and that DEK is Knuth's rotate-and-xor hash on 32-bit words but
  not on 64-bit ones; on 32-bit words the DEK loop can be run backwards byte by byte. On
  both widths DEK's body is injective and its loop linear over xor, so a common suffix
  never creates a DEK collision, while JS's body is not injective on any width of at
  least 14 bits (the hashes 319 and 320 merge on the byte 0), so a common suffix can.
\<close>

section \<open>BP\<close>

text \<open>\<^verbatim>\<open>hash = hash<<7 ^ uint(str[i])\<close>: in Go \<^verbatim>\<open><<\<close> binds tighter than \<^verbatim>\<open>^\<close>.\<close>

definition BP_step :: "'a::len word \<Rightarrow> byte \<Rightarrow> 'a word" where
  "BP_step hash c = push_bit 7 hash XOR widen c"

definition BP :: "gostring \<Rightarrow> 'a::len word" where
  "BP str = foldl BP_step 0 str"

section \<open>FNV\<close>

text \<open>\<^verbatim>\<open>hash *= fnvPrime; hash ^= uint(str[i])\<close> with \<^verbatim>\<open>fnvPrime = 0x811C9DC5\<close>.\<close>

definition FNV_step :: "'a::len word \<Rightarrow> 'a word \<Rightarrow> byte \<Rightarrow> 'a word" where
  "FNV_step fnvPrime hash c = (let hash = hash * fnvPrime in hash XOR widen c)"

definition FNV :: "gostring \<Rightarrow> 'a::len word" where
  "FNV str = (let fnvPrime = 0x811C9DC5 in foldl (FNV_step fnvPrime) 0 str)"

section \<open>JS\<close>

text \<open>\<^verbatim>\<open>hash ^= ((hash << 5) + uint(str[i]) + (hash >> 2))\<close>, from \<open>1315423911\<close>.\<close>

definition JS_step :: "'a::len word \<Rightarrow> byte \<Rightarrow> 'a word" where
  "JS_step hash c = hash XOR ((push_bit 5 hash) + widen c + (drop_bit 2 hash))"

definition JS :: "gostring \<Rightarrow> 'a::len word" where
  "JS str = foldl JS_step 1315423911 str"

section \<open>DEK\<close>

text \<open>
  \<^verbatim>\<open>hash = ((hash << 5) ^ (hash >> 27)) ^ uint(str[i])\<close>, from
  \<^verbatim>\<open>uint(len(str))\<close>: the length converted to the word, modulo \<open>2\<^sup>W\<close>.
\<close>

definition DEK_step :: "'a::len word \<Rightarrow> byte \<Rightarrow> 'a word" where
  "DEK_step hash c = ((push_bit 5 hash) XOR (drop_bit 27 hash)) XOR widen c"

definition DEK :: "gostring \<Rightarrow> 'a::len word" where
  "DEK str = foldl DEK_step (of_nat (length str)) str"

declare BP_step_def [hash_defs] BP_def [hash_defs] FNV_step_def [hash_defs]
  FNV_def [hash_defs] JS_step_def [hash_defs] JS_def [hash_defs]
  DEK_step_def [hash_defs] DEK_def [hash_defs]

section \<open>BP forgets all but the last bytes\<close>

text \<open>The loop of BP is linear over exclusive or: the start value is only shifted.\<close>

lemma BP_step_0: "BP_step 0 b = widen b"
  by (simp add: BP_step_def)

lemma BP_loop_shift:
  "foldl BP_step h bs = push_bit (7 * length bs) h XOR foldl BP_step 0 bs"
proof (induction bs arbitrary: h)
  case Nil
  then show ?case by simp
next
  case (Cons b bs)
  let ?n = "length bs" and ?F = "foldl BP_step 0 bs :: 'a::len word"
  have 1: "foldl BP_step h (b # bs) = push_bit (7 * ?n) (BP_step h b) XOR ?F"
    by (simp only: foldl_Cons Cons.IH [of "BP_step h b"])
  have 2: "foldl BP_step 0 (b # bs) = push_bit (7 * ?n) (widen b) XOR ?F"
    by (simp only: foldl_Cons BP_step_0) (rule Cons.IH)
  have 3: "push_bit (7 * ?n) (BP_step h b)
             = push_bit (7 * Suc ?n) h XOR push_bit (7 * ?n) (widen b)"
    by (simp add: BP_step_def push_bit_xor push_bit_push_bit add.commute)
  show ?case using 1 2 3 by (simp add: xor.assoc)
qed

text \<open>C21: BP keeps only the last ceil(W/7) bytes (5 on 32-bit, 10 on 64-bit words): strings with the same tail of that length collide.\<close>

theorem BP_suffix_only:
  assumes "LENGTH('a) \<le> 7 * length ys"
  shows "(BP (xs @ ys) :: 'a::len word) = BP ys"
proof -
  have "push_bit (7 * length ys) (foldl BP_step 0 xs :: 'a word) = 0"
    using assms by (rule push_bit_word_beyond)
  then show ?thesis by (simp add: BP_def BP_loop_shift [of "foldl BP_step 0 xs" ys])
qed

theorem BP_suffix_only_witness:
  "LENGTH(64) \<le> 7 * length (replicate 10 (7::byte))
   \<and> (BP ([1, 2, 3] @ replicate 10 7) :: 64 word) = BP (replicate 10 7)"
  using BP_suffix_only [of "replicate 10 7" "[1, 2, 3]", where 'a = 64] by simp

section \<open>FNV\<close>

lemma FNV_step_zero: "FNV_step p 0 0 = 0"
  by (simp add: FNV_step_def)

lemma FNV_loop_zeros: "foldl (FNV_step p) 0 (replicate n 0) = 0"
  by (induction n) (simp_all add: FNV_step_zero replicate_append_same [symmetric])

text \<open>C22: FNV starts from 0 and multiplies before it xors, so any number of leading NUL bytes leaves its hash unchanged.\<close>

theorem FNV_leading_zeros: "(FNV (replicate n 0 @ str) :: 'a::len word) = FNV str"
  by (simp add: FNV_def FNV_loop_zeros)

lemma FNV_loop_cancel:
  assumes "odd p"
  shows "foldl (FNV_step p) h zs = foldl (FNV_step p) h' zs \<longleftrightarrow> h = h'"
  by (rule foldl_inj_cancel)
    (simp add: FNV_step_def xor_cancel_right_iff odd_mult_cancel_iff [OF assms])

text \<open>Since the FNV multiplier 0x811C9DC5 is odd, appending a common suffix to two strings neither creates nor removes an FNV collision.\<close>

theorem FNV_suffix_collision:
  "(FNV (xs @ zs) :: 'a::len word) = FNV (ys @ zs) \<longleftrightarrow> (FNV xs :: 'a word) = FNV ys"
  by (simp add: FNV_def FNV_loop_cancel)

section \<open>DEK is a rotation on 32-bit words only\<close>

lemma DEK_shift_pair_rotl_32:
  "(push_bit 5 h XOR drop_bit 27 h) = word_rotl 5 (h :: 32 word)"
proof (rule bit_word_eqI)
  fix n assume n: "n < LENGTH(32)"
  show "bit (push_bit 5 h XOR drop_bit 27 h) n = bit (word_rotl 5 h) n"
  proof (cases "n < 5")
    case True
    then have "(n + 27) mod 32 = 27 + n" by simp
    then show ?thesis using True n by (simp add: bit_simps add.commute [of n 27])
  next
    case False
    then have "(n + 27) mod 32 = n - 5"
      using n by (simp add: mod_if)
    moreover have "\<not> bit h (27 + n)"
      using False by (auto dest: bit_imp_le_length)
    ultimately show ?thesis using False n by (simp add: bit_simps)
  qed
qed

text \<open>C8: On 32-bit words the DEK body (hash << 5) ^ (hash >> 27) is a left rotation by 5, so DEK is Knuth's rotate-and-xor hash seeded with the length.\<close>

theorem DEK_32_is_rotate_xor:
  "(DEK str :: 32 word) = foldl (\<lambda>h c. word_rotl 5 h XOR widen c) (of_nat (length str)) str"
proof -
  have "(DEK_step :: 32 word \<Rightarrow> byte \<Rightarrow> 32 word) = (\<lambda>h c. word_rotl 5 h XOR widen c)"
    by (simp add: fun_eq_iff DEK_step_def DEK_shift_pair_rotl_32)
  then show ?thesis by (simp add: DEK_def)
qed

text \<open>On 64-bit words the fixed shifts (5, 27) of DEK are not a rotation: from hash = 2^63 the body gives 2^36 where a rotation gives 16.\<close>

theorem DEK_64_not_rotate_xor:
  "DEK_step (push_bit 63 1 :: 64 word) 0 \<noteq> word_rotl 5 (push_bit 63 1) XOR widen 0"
  by code_simp

text \<open>
  On 32-bit words the DEK body is a bijection of the hash for each byte, so the loop can be
  run backwards: \<open>hash = rotr5(hash' ^ uint(str[i]))\<close> undoes one iteration.
\<close>

lemma DEK_32_step_inverse: "word_rotr 5 (DEK_step h c XOR widen c) = (h :: 32 word)"
  by (simp add: DEK_step_def DEK_shift_pair_rotl_32 xor.assoc)

text \<open>C17: On 32-bit words DEK loses nothing: undoing the loop body over the string, last byte first, from the hash DEK computed from any start value h gives h back; in particular DEK(str) and str determine uint(len(str)).\<close>

theorem DEK_32_loop_roundtrip:
  "foldr (\<lambda>c h. word_rotr 5 (h XOR widen c)) str (foldl DEK_step h str) = (h :: 32 word)"
proof (induction str arbitrary: h)
  case Nil
  then show ?case by simp
next
  case (Cons c cs)
  show ?case using Cons.IH [of "DEK_step h c"] by (simp add: DEK_32_step_inverse)
qed

section \<open>DEK keeps collisions apart on both widths; JS does not\<close>

text \<open>
  On 64-bit words the DEK shift pair \<open>(h << 5) ^ (h >> 27)\<close> is not a rotation, but it
  still has a trivial kernel: comparing bit \<open>n\<close> of both sides, bits 27-31, then 32-58,
  then 59-63, then 0-26 of a word in the kernel are all zero.
\<close>

lemma DEK_shift_pair_64_kernel:
  fixes d :: "64 word"
  assumes "push_bit 5 d XOR drop_bit 27 d = 0"
  shows "d = 0"
proof -
  have eq: "(5 \<le> n \<and> bit d (n - 5)) \<longleftrightarrow> bit d (27 + n)" if "n < 64" for n
  proof -
    have "\<not> bit (push_bit 5 d XOR drop_bit 27 d) n" using assms by simp
    then show ?thesis using that by (auto simp: bit_simps)
  qed
  have hi: "\<not> bit d m" if "64 \<le> m" for m
    using that bit_imp_le_length [of d m] by auto
  have A: "\<not> bit d (27 + k)" if "k < 5" for k
    using eq [of k] that by auto
  have B: "\<not> bit d (32 + k)" if "k < 27" for k
    using eq [of "37 + k"] hi [of "64 + k"] that by simp
  have C: "\<not> bit d (59 + k)" if "k < 5" for k
    using eq [of "32 + k"] A [of k] that by (simp add: add.commute)
  have D: "\<not> bit d k" if "k < 27" for k
    using eq [of "5 + k"] B [of k] that by simp
  show ?thesis
  proof (rule bit_word_eqI)
    fix m assume m: "m < LENGTH(64)"
    consider "m < 27" | "27 \<le> m \<and> m < 32" | "32 \<le> m \<and> m < 59" | "59 \<le> m"
      by arith
    then show "bit d m = bit 0 m"
    proof cases
      case 1
      then show ?thesis using D [of m] by simp
    next
      case 2
      then have "m - 27 < 5" by arith
      then show ?thesis using A [of "m - 27"] 2 by simp
    next
      case 3
      then have "m - 32 < 27" by arith
      then show ?thesis using B [of "m - 32"] 3 by simp
    next
      case 4
      then have "m - 59 < 5" using m by simp
      then show ?thesis using C [of "m - 59"] 4 by simp
    qed
  qed
qed

lemma DEK_shift_pair_xor:
  "push_bit 5 (x XOR y) XOR drop_bit 27 (x XOR y)
   = (push_bit 5 x XOR drop_bit 27 x) XOR (push_bit 5 y XOR drop_bit 27 (y :: 'a::len word))"
  by (simp add: ac_simps)

lemma DEK_step_inj_64: "DEK_step x c = DEK_step y c \<Longrightarrow> (x :: 64 word) = y"
proof -
  assume "DEK_step x c = DEK_step y c"
  then have "push_bit 5 x XOR drop_bit 27 x = push_bit 5 y XOR drop_bit 27 y"
    by (simp add: DEK_step_def xor_cancel_right_iff)
  then have "push_bit 5 (x XOR y) XOR drop_bit 27 (x XOR y) = 0"
    by (simp only: DEK_shift_pair_xor) simp
  then have "x XOR y = 0" by (rule DEK_shift_pair_64_kernel)
  then show "x = y" by (metis bit.xor_self xor_cancel_right_iff)
qed


lemma DEK_shift_pair_funpow_xor:
  "((\<lambda>w. push_bit 5 w XOR drop_bit 27 w) ^^ n) (a XOR b)
   = ((\<lambda>w. push_bit 5 w XOR drop_bit 27 w) ^^ n) a
     XOR ((\<lambda>w. push_bit 5 w XOR drop_bit 27 w) ^^ n) (b :: 'a::len word)"
  by (induction n) (simp_all add: DEK_shift_pair_xor ac_simps)

lemma DEK_loop_xor:
  "foldl DEK_step h xs
   = foldl DEK_step 0 xs XOR ((\<lambda>w. push_bit 5 w XOR drop_bit 27 w) ^^ length xs) (h :: 'a::len word)"
proof (induction xs arbitrary: h)
  case Nil
  then show ?case by simp
next
  case (Cons c cs)
  let ?L = "\<lambda>w::'a word. push_bit 5 w XOR drop_bit 27 w"
  have st: "DEK_step w c = ?L w XOR widen c" for w
    by (simp add: DEK_step_def)
  have "foldl DEK_step h (c # cs) = foldl DEK_step 0 cs XOR (?L ^^ length cs) (?L h XOR widen c)"
    using Cons.IH [of "DEK_step h c"] by (simp only: foldl_Cons st)
  moreover have "foldl DEK_step 0 (c # cs) = foldl DEK_step 0 cs XOR (?L ^^ length cs) (widen c)"
    using Cons.IH [of "DEK_step 0 c"] by (simp add: st)
  ultimately show ?case
    by (simp add: DEK_shift_pair_funpow_xor funpow_Suc_right ac_simps del: funpow.simps)
qed

lemma DEK_step_inj_32: "DEK_step x c = DEK_step y c \<Longrightarrow> (x :: 32 word) = y"
  by (metis DEK_32_step_inverse)

lemma DEK_collision_cancel:
  assumes inj: "\<And>x y c. DEK_step x c = DEK_step y c \<Longrightarrow> (x :: 'a::len word) = y"
    and len: "length xs = length ys"
  shows "(DEK (xs @ zs) :: 'a word) = DEK (ys @ zs) \<longleftrightarrow> (DEK xs :: 'a word) = DEK ys"
proof -
  let ?L = "\<lambda>w::'a word. push_bit 5 w XOR drop_bit 27 w"
  define S :: "'a word" where "S = of_nat (length xs + length zs)"
  have "(DEK (xs @ zs) :: 'a word) = DEK (ys @ zs)
        \<longleftrightarrow> foldl DEK_step (foldl DEK_step S xs) zs = foldl DEK_step (foldl DEK_step S ys) zs"
    using len by (simp add: DEK_def S_def)
  also have "\<dots> \<longleftrightarrow> foldl DEK_step S xs = foldl DEK_step S ys"
    by (rule foldl_inj_cancel) (rule inj)
  also have "\<dots> \<longleftrightarrow> foldl DEK_step 0 xs = (foldl DEK_step 0 ys :: 'a word)"
    using len by (simp add: DEK_loop_xor [of S] xor_cancel_right_iff)
  also have "\<dots> \<longleftrightarrow> (DEK xs :: 'a word) = DEK ys"
    using len by (simp add: DEK_def DEK_loop_xor [of "of_nat (length ys)"] xor_cancel_right_iff)
  finally show ?thesis .
qed

text \<open>C28: DEK's loop body is injective on both Go widths (a rotation on 32-bit words, a full-rank xor of shifts on 64-bit words), and DEK's loop is linear over xor: so for two strings of the same length, appending a common suffix neither creates nor removes a DEK collision, on 32- and on 64-bit words.\<close>

theorem DEK_suffix_collision:
  assumes "length xs = length ys"
  shows "((DEK (xs @ zs) :: 32 word) = DEK (ys @ zs) \<longleftrightarrow> (DEK xs :: 32 word) = DEK ys)
       \<and> ((DEK (xs @ zs) :: 64 word) = DEK (ys @ zs) \<longleftrightarrow> (DEK xs :: 64 word) = DEK ys)"
proof
  show "(DEK (xs @ zs) :: 32 word) = DEK (ys @ zs) \<longleftrightarrow> (DEK xs :: 32 word) = DEK ys"
    by (rule DEK_collision_cancel [OF _ assms], erule DEK_step_inj_32)
  show "(DEK (xs @ zs) :: 64 word) = DEK (ys @ zs) \<longleftrightarrow> (DEK xs :: 64 word) = DEK ys"
    by (rule DEK_collision_cancel [OF _ assms], erule DEK_step_inj_64)
qed

theorem DEK_suffix_collision_witness:
  "length [1::byte] = length [2::byte]
   \<and> (((DEK ([1] @ [3]) :: 32 word) = DEK ([2] @ [3]) \<longleftrightarrow> (DEK [1] :: 32 word) = DEK [2])
      \<and> ((DEK ([1] @ [3]) :: 64 word) = DEK ([2] @ [3]) \<longleftrightarrow> (DEK [1] :: 64 word) = DEK [2]))"
  using DEK_suffix_collision [of "[1]" "[2]" "[3]"] by simp




text \<open>Real strings reach such merged states: \<^verbatim>\<open>")/ "\<close> and \<^verbatim>\<open>"*% "\<close> collide on 32- and 64-bit words while \<^verbatim>\<open>")/"\<close> and \<^verbatim>\<open>"*%"\<close> do not.\<close>

lemma JS_strings_collide:
  "(JS (go_string '')/'') :: 32 word) \<noteq> JS (go_string ''*%'')
   \<and> (JS (go_string '')/ '') :: 32 word) = JS (go_string ''*% '')
   \<and> (JS (go_string '')/'') :: 64 word) \<noteq> JS (go_string ''*%'')
   \<and> (JS (go_string '')/ '') :: 64 word) = JS (go_string ''*% '')
   \<and> (JS_step 319 0 :: 64 word) = JS_step 320 0"
  by code_simp

end
