(* ===== verification/Masked_Hashes.thy ===== *)
theory Masked_Hashes
  imports Hash_Prelude
begin

text \<open>
  The two hashes of \<^verbatim>\<open>src/gpshash.go\<close> that fold high bits back with a mask:
  \<^verbatim>\<open>ELF\<close>, with the fixed 32-bit mask \<open>0xF0000000\<close>, and \<^verbatim>\<open>PJW\<close>, whose shift
  amounts and mask are Go constants computed from the width of \<^verbatim>\<open>uint\<close>.
  The lemmas show that ELF always clears bits 28 to 31, so that on 32-bit words its
  result stays below \<open>2\<^sup>2\<^sup>8\<close>, but that on 64-bit words the carry of
  \<open>(hash << 4) + b\<close> escapes above bit 31; and that in PJW the folding branch is dead
  code, because \<^verbatim>\<open>highBits\<close> is the mask of the low bits rather than of the high
  ones: PJW is the plain shift-and-add hash, which on 64-bit words keeps only the last
  eight bytes, and keeps them whole: \<open>be_bytes\<close> reads them back from the hash. The
  low 32 bits of ELF on 64-bit words are ELF on 32-bit words.
\<close>

section \<open>ELF\<close>

text \<open>
  \<^verbatim>\<open>hash = (hash << 4) + uint(str[i]); x = hash & 0xF0000000;
  if x != 0 { hash ^= (x >> 24) }; hash &= ^x\<close>.
  The variable \<^verbatim>\<open>x\<close> is declared outside the loop but written before it is read in
  every iteration, so it is local to the body.
\<close>

definition ELF_step :: "'a::len word \<Rightarrow> byte \<Rightarrow> 'a word" where
  "ELF_step hash c =
     (let hash = (push_bit 4 hash) + widen c;
          x = hash AND 0xF0000000;
          hash = (if x \<noteq> 0 then hash XOR (drop_bit 24 x) else hash)
      in hash AND NOT x)"

definition ELF :: "gostring \<Rightarrow> 'a::len word" where
  "ELF str = foldl ELF_step 0 str"

section \<open>PJW\<close>

text \<open>
  The constants of \<^verbatim>\<open>PJW\<close>, typed \<^verbatim>\<open>uint\<close>:
  \<^verbatim>\<open>maxUint = ^uint(0)\<close>, \<^verbatim>\<open>bitsPerWord = uint(32 * (1 + maxUint>>63))\<close>,
  \<^verbatim>\<open>threeQuarters = uint((bitsPerWord * 3) / 4)\<close>, \<^verbatim>\<open>oneEighth = uint(bitsPerWord / 8)\<close>,
  \<^verbatim>\<open>highBits = uint(1<<(bitsPerWord-oneEighth) - 1)\<close>. For the two widths Go has
  (32 and 64) none of these overflows, so the word arithmetic below is Go's exact constant
  arithmetic.
\<close>

definition PJW_maxUint :: "'a::len word" where
  "PJW_maxUint = NOT 0"

definition PJW_bitsPerWord :: "'a::len word" where
  "PJW_bitsPerWord = 32 * (1 + drop_bit 63 PJW_maxUint)"

definition PJW_threeQuarters :: "'a::len word" where
  "PJW_threeQuarters = (PJW_bitsPerWord * 3) div 4"

definition PJW_oneEighth :: "'a::len word" where
  "PJW_oneEighth = PJW_bitsPerWord div 8"

definition PJW_highBits :: "'a::len word" where
  "PJW_highBits = push_bit (unat (PJW_bitsPerWord - PJW_oneEighth :: 'a word)) 1 - 1"

text \<open>
  \<^verbatim>\<open>hash = (hash << oneEighth) + uint(str[i]); test = hash & highBits;
  if test != 0 { hash ^= (test >> threeQuarters) & (^highBits) }\<close>.
\<close>

definition PJW_step :: "'a::len word \<Rightarrow> byte \<Rightarrow> 'a word" where
  "PJW_step hash c =
     (let hash = (push_bit (unat (PJW_oneEighth :: 'a word)) hash) + widen c;
          test = hash AND PJW_highBits
      in if test \<noteq> 0
         then hash XOR ((drop_bit (unat (PJW_threeQuarters :: 'a word)) test) AND (NOT PJW_highBits))
         else hash)"

definition PJW :: "gostring \<Rightarrow> 'a::len word" where
  "PJW str = foldl PJW_step 0 str"

text \<open>
  The inverse direction of a 64-bit PJW hash: the last \<open>n\<close> bytes of a word, most
  significant first (\<open>uint8(w >> 8(n-1-k))\<close> for \<open>k = 0 \<dots> n-1\<close>).
\<close>

definition be_bytes :: "nat \<Rightarrow> 'a::len word \<Rightarrow> byte list" where
  "be_bytes n w = map (\<lambda>k. ucast (drop_bit (8 * (n - 1 - k)) w)) [0..<n]"

declare ELF_step_def [hash_defs] ELF_def [hash_defs] PJW_maxUint_def [hash_defs]
  PJW_bitsPerWord_def [hash_defs] PJW_threeQuarters_def [hash_defs]
  PJW_oneEighth_def [hash_defs] PJW_highBits_def [hash_defs] PJW_step_def [hash_defs]
  PJW_def [hash_defs]

section \<open>ELF clears the top nibble of the low 32 bits\<close>

lemma ELF_mask_bits: "(0xF0000000 :: 'a::len word) = push_bit 28 (mask 4)"
  by (simp add: push_bit_eq_mult mask_eq_exp_minus_1)

lemma ELF_step_nibble: "ELF_step hash c AND 0xF0000000 = 0"
  unfolding ELF_step_def Let_def ELF_mask_bits
  by (rule bit_word_eqI) (auto simp: bit_simps)

lemma ELF_nibble_clear: "(ELF str :: 'a::len word) AND 0xF0000000 = 0"
proof (cases str rule: rev_cases)
  case Nil
  then show ?thesis by (simp add: ELF_def)
next
  case (snoc cs c)
  then show ?thesis by (simp add: ELF_def ELF_step_nibble)
qed

text \<open>C9: No bit of an ELF hash lies at positions 28 to 31, on any width.\<close>

theorem ELF_high_nibble_clear: "bit (ELF str :: 'a::len word) n \<Longrightarrow> n < 28 \<or> 32 \<le> n"
proof -
  assume b: "bit (ELF str :: 'a word) n"
  have "\<not> bit ((ELF str :: 'a word) AND 0xF0000000) n"
    by (simp add: ELF_nibble_clear)
  then show ?thesis using b bit_imp_le_length [OF b] by (auto simp: ELF_mask_bits bit_simps)
qed

theorem ELF_high_nibble_clear_witness:
  "bit (ELF [1] :: 64 word) 0 \<and> ((0::nat) < 28 \<or> 32 \<le> (0::nat))"
proof -
  have h: "bit (ELF [1] :: 64 word) 0" by (simp add: ELF_def ELF_step_def widen_def)
  show ?thesis using h ELF_high_nibble_clear [OF h] by simp
qed

lemma nibble_clear_32_less: "(w :: 32 word) AND 0xF0000000 = 0 \<Longrightarrow> w < 2 ^ 28"
proof -
  assume clear: "w AND 0xF0000000 = 0"
  have "w = w AND mask 28"
  proof (rule bit_word_eqI)
    fix n assume n: "n < LENGTH(32)"
    have "\<not> bit (w AND 0xF0000000) n" using clear by simp
    then show "bit w n = bit (w AND mask 28) n"
      using n by (auto simp: ELF_mask_bits bit_simps)
  qed
  also have "\<dots> < 2 ^ 28" by (rule and_mask_less') simp
  finally show ?thesis .
qed

text \<open>C10: On 32-bit words the ELF hash is always below 2^28.\<close>

theorem ELF_32_bound: "(ELF str :: 32 word) < 2 ^ 28"
  using ELF_nibble_clear by (rule nibble_clear_32_less)

text \<open>
  On 64-bit words the carry of \<open>(hash << 4) + b\<close> out of bit 31 is kept: after
  seven bytes \<open>0x0F\<close> the hash is \<open>0x0FFFFFFF\<close>, and a byte \<open>0x10\<close> makes it
  \<open>2\<^sup>3\<^sup>2\<close>, which no later step clears. On 32-bit words the same input hashes to \<open>0\<close>.
\<close>

text \<open>On 64-bit words the carry of (hash << 4) + b out of bit 31 is kept: the input 0x0F x7, 0x10 hashes to 2^32, while on 32-bit words it hashes to 0.\<close>

theorem ELF_64_carry_escapes:
  "(ELF [15, 15, 15, 15, 15, 15, 15, 16] :: 64 word) = 0x100000000
   \<and> (ELF [15, 15, 15, 15, 15, 15, 15, 16] :: 32 word) = 0"
  by (simp add: ELF_def ELF_step_def widen_def)

section \<open>ELF on 64-bit words agrees with ELF on 32-bit words below bit 32\<close>

text \<open>
  The \<^verbatim>\<open>if x != 0\<close> of ELF's body changes nothing when \<open>x = 0\<close>; without it the body
  is an addition followed by bitwise operations that only look at bits below 32, so
  truncating to 32 bits commutes with it.
\<close>

lemma ELF_step_no_if:
  "ELF_step h c = (let p = push_bit 4 h + widen c; x = p AND 0xF0000000
                   in (p XOR drop_bit 24 x) AND NOT x)"
proof -
  have "(if x \<noteq> 0 then p XOR drop_bit 24 x else p) AND NOT x = (p XOR drop_bit 24 x) AND NOT x"
    for p x :: "'a word"
    by (cases "x = 0") simp_all
  then show ?thesis unfolding ELF_step_def Let_def by presburger
qed

lemma ELF_body_ucast:
  "(ucast ((p XOR drop_bit 24 (p AND 0xF0000000)) AND NOT (p AND 0xF0000000) :: 64 word) :: 32 word)
   = (ucast p XOR drop_bit 24 (ucast p AND 0xF0000000)) AND NOT (ucast p AND 0xF0000000)"
  by (rule bit_word_eqI) (auto simp: bit_simps bit_word_ucast_iff ELF_mask_bits)

lemma ELF_step_ucast: "(ucast (ELF_step h c :: 64 word) :: 32 word) = ELF_step (ucast h) c"
  unfolding ELF_step_no_if Let_def ELF_body_ucast
  by (simp add: ucast_down_add ucast_widen ucast_push_bit_down)

text \<open>C25: On 64-bit words the low 32 bits of the ELF hash are exactly the 32-bit ELF hash: the wider word only adds the carries that escape above bit 31.\<close>

theorem ELF_64_low_word_is_ELF_32:
  "(ucast (ELF str :: 64 word) :: 32 word) = ELF str"
proof -
  have "(ucast (foldl ELF_step 0 str :: 64 word) :: 32 word) = foldl ELF_step (ucast (0 :: 64 word)) str"
    by (rule foldl_ucast) (rule ELF_step_ucast)
  then show ?thesis by (simp add: ELF_def)
qed

section \<open>PJW: the constants and the dead folding branch\<close>

text \<open>PJW's constants recompute with the width: bitsPerWord, threeQuarters, oneEighth, highBits are 32, 24, 4, 0x0FFFFFFF on 32-bit and 64, 48, 8, 0x00FFFFFFFFFFFFFF on 64-bit words.\<close>

theorem PJW_constants_32_64:
  "(PJW_bitsPerWord :: 32 word) = 32 \<and> (PJW_threeQuarters :: 32 word) = 24
   \<and> (PJW_oneEighth :: 32 word) = 4 \<and> (PJW_highBits :: 32 word) = 0x0FFFFFFF
   \<and> (PJW_bitsPerWord :: 64 word) = 64 \<and> (PJW_threeQuarters :: 64 word) = 48
   \<and> (PJW_oneEighth :: 64 word) = 8 \<and> (PJW_highBits :: 64 word) = 0x00FFFFFFFFFFFFFF"
  by (simp add: PJW_bitsPerWord_def PJW_maxUint_def PJW_threeQuarters_def
      PJW_oneEighth_def PJW_highBits_def)

lemma PJW_highBits_mask:
  "(PJW_highBits :: 'a::len word) = mask (unat (PJW_bitsPerWord - PJW_oneEighth :: 'a word))"
  by (simp add: PJW_highBits_def push_bit_eq_mult mask_eq_exp_minus_1)

lemma drop_bit_low_and_high_mask:
  "drop_bit k (x AND mask m) AND NOT (mask m) = (0::'a::len word)"
  by (rule bit_word_eqI) (auto simp: bit_simps)

text \<open>The loop body of PJW never changes the hash in its \<^verbatim>\<open>if\<close> branch.\<close>

lemma PJW_step_shift_add:
  "PJW_step hash c = push_bit (unat (PJW_oneEighth :: 'a word)) hash + (widen c :: 'a::len word)"
  unfolding PJW_step_def Let_def PJW_highBits_mask drop_bit_low_and_high_mask by simp

text \<open>C5: Because highBits is the mask of the low bits, the folding branch of PJW never changes the hash: PJW is the plain loop hash := (hash << oneEighth) + b.\<close>

theorem PJW_is_shift_add:
  "(PJW str :: 'a::len word)
     = foldl (\<lambda>hash c. push_bit (unat (PJW_oneEighth :: 'a word)) hash + widen c) 0 str"
proof -
  have "(PJW_step :: 'a word \<Rightarrow> byte \<Rightarrow> 'a word)
          = (\<lambda>hash c. push_bit (unat (PJW_oneEighth :: 'a word)) hash + widen c)"
    unfolding fun_eq_iff PJW_step_def Let_def PJW_highBits_mask drop_bit_low_and_high_mask
    by simp
  then show ?thesis by (simp add: PJW_def)
qed

lemma PJW_step_mul_add:
  "(PJW_step :: 'a::len word \<Rightarrow> byte \<Rightarrow> 'a word)
     = mul_add_step (2 ^ unat (PJW_oneEighth :: 'a word))"
  by (simp add: fun_eq_iff PJW_step_shift_add mul_add_step_def push_bit_eq_mult)

text \<open>
  A byte more than \<open>W / oneEighth\<close> places from the end is shifted out of the word:
  PJW keeps the last 8 bytes on both widths of Go (\<open>4 \<cdot> 8 = 32\<close>, \<open>8 \<cdot> 8 = 64\<close>).
\<close>

text \<open>C20: PJW keeps only the last W/oneEighth bytes (8 on 32- and 64-bit words): strings with the same last 8 bytes collide.\<close>

theorem PJW_suffix_only:
  assumes "LENGTH('a) \<le> unat (PJW_oneEighth :: 'a word) * length ys"
  shows "(PJW (xs @ ys) :: 'a::len word) = PJW ys"
proof -
  define c :: "'a word" where "c = 2 ^ unat (PJW_oneEighth :: 'a word)"
  have "c ^ length ys = 2 ^ (unat (PJW_oneEighth :: 'a word) * length ys)"
    by (simp add: c_def power_mult)
  also have "\<dots> = 0"
    using assms by (simp add: exp_eq_zero_iff)
  finally have zero: "c ^ length ys = 0" .
  have "PJW (xs @ ys) = foldl (mul_add_step c) (PJW xs) ys"
    by (simp add: PJW_def PJW_step_mul_add c_def)
  also have "\<dots> = PJW xs * c ^ length ys + foldl (mul_add_step c) 0 ys"
    by (rule mul_add_loop_linear)
  also have "\<dots> = PJW ys"
    using zero by (simp add: PJW_def PJW_step_mul_add flip: c_def)
  finally show ?thesis .
qed

theorem PJW_suffix_only_witness:
  "LENGTH(64) \<le> unat (PJW_oneEighth :: 64 word) * length (go_string ''abcdefgh'')
   \<and> (PJW (go_string ''xyz'' @ go_string ''abcdefgh'') :: 64 word) = PJW (go_string ''abcdefgh'')"
proof -
  have h: "LENGTH(64) \<le> unat (PJW_oneEighth :: 64 word) * length (go_string ''abcdefgh'')"
    by (simp add: PJW_oneEighth_def PJW_bitsPerWord_def PJW_maxUint_def go_string_def)
  show ?thesis using h PJW_suffix_only [OF h, of "go_string ''xyz''"] by simp
qed

text \<open>PJW's value depends on the width: PJW("ab") is 1650 on 32-bit and 24930 on 64-bit words.\<close>

theorem PJW_width_sensitive:
  "(PJW (go_string ''ab'') :: 32 word) = 1650 \<and> (PJW (go_string ''ab'') :: 64 word) = 24930"
  by (simp add: PJW_def PJW_step_shift_add PJW_oneEighth_def PJW_bitsPerWord_def
      PJW_maxUint_def go_string_def widen_def)

section \<open>PJW on 64-bit words packs the last eight bytes\<close>

text \<open>
  With \<open>oneEighth = 8\<close>, \<^verbatim>\<open>(hash << 8) + uint(str[i])\<close> never carries: the
  addition is a disjunction of the shifted hash and the new byte, so the hash is the
  big-endian packing of the bytes read, of which the word keeps the last eight.
\<close>

lemma push8_add_widen: "push_bit 8 x + widen c = push_bit 8 x OR (widen c :: 'a::len word)"
  by (rule disjunctive_add) (auto simp: bit_simps widen_def dest: bit_imp_le_length)

lemma bit_pack8:
  "bit (foldl (\<lambda>h c. push_bit 8 h + widen c) 0 ys :: 'a::len word) n
     \<longleftrightarrow> n < LENGTH('a) \<and> n < 8 * length ys \<and> bit (ys ! (length ys - 1 - n div 8)) (n mod 8)"
proof (induction ys arbitrary: n rule: rev_induct)
  case Nil
  then show ?case by simp
next
  case (snoc c ys)
  let ?p = "foldl (\<lambda>h c. push_bit 8 h + widen c) 0 ys :: 'a word"
  have eq: "foldl (\<lambda>h c. push_bit 8 h + widen c) 0 (ys @ [c]) = push_bit 8 ?p OR widen c"
    by (simp add: push8_add_widen)
  have bits: "bit (push_bit 8 ?p OR widen c) n
      \<longleftrightarrow> (8 \<le> n \<and> n < LENGTH('a) \<and> bit ?p (n - 8)) \<or> (n < LENGTH('a) \<and> bit c n)"
    by (auto simp: bit_or_iff bit_push_bit_iff bit_widen)
  show ?case
  proof (cases "n < 8")
    case True
    have "length (ys @ [c]) - 1 - n div 8 = length ys" using True by simp
    then show ?thesis unfolding eq bits using True by simp
  next
    case False
    have nc: "\<not> bit c n" using False bit_imp_le_length [of c n] by auto
    have d: "(n - 8) div 8 = n div 8 - 1" and m: "(n - 8) mod 8 = n mod 8"
      using False by (simp_all add: le_div_geq le_mod_geq)
    have i: "length (ys @ [c]) - 1 - n div 8 = length ys - 1 - (n - 8) div 8"
      using False d by simp
    have lt: "n < 8 * length (ys @ [c]) \<longleftrightarrow> n - 8 < 8 * length ys" using False by auto
    have "n - 8 < 8 * length ys \<Longrightarrow> length ys - 1 - (n - 8) div 8 < length ys" by simp
    then have nth: "n - 8 < 8 * length ys \<Longrightarrow>
        (ys @ [c]) ! (length ys - 1 - (n - 8) div 8) = ys ! (length ys - 1 - (n - 8) div 8)"
      by (simp add: nth_append)
    show ?thesis
      unfolding eq bits i lt
      using snoc.IH [of "n - 8"] False nc nth m by auto
  qed
qed

lemma PJW_64_pack: "(PJW s :: 64 word) = foldl (\<lambda>h c. push_bit 8 h + widen c) 0 s"
proof -
  have "unat (PJW_oneEighth :: 64 word) = 8"
    by (simp add: PJW_oneEighth_def PJW_bitsPerWord_def PJW_maxUint_def)
  then have "(PJW_step :: 64 word \<Rightarrow> byte \<Rightarrow> 64 word) = (\<lambda>h c. push_bit 8 h + widen c)"
    by (simp add: fun_eq_iff PJW_step_shift_add)
  then show ?thesis by (simp add: PJW_def)
qed

text \<open>C11: On 64-bit words PJW is a lossless encoding of the last eight bytes: reading the hash back as big-endian bytes gives the last min(8, len(str)) bytes of the string.\<close>

theorem PJW_64_last_bytes:
  "be_bytes (min 8 (length s)) (PJW s :: 64 word) = drop (length s - 8) s"
proof (rule nth_equalityI)
  let ?m = "min 8 (length s)"
  show "length (be_bytes ?m (PJW s :: 64 word)) = length (drop (length s - 8) s)"
    by (simp add: be_bytes_def)
  fix k assume "k < length (be_bytes ?m (PJW s :: 64 word))"
  then have k: "k < ?m" by (simp add: be_bytes_def)
  let ?d = "8 * (?m - 1 - k)"
  have "(ucast (drop_bit ?d (PJW s :: 64 word)) :: byte) = s ! (length s - 8 + k)"
  proof (rule bit_word_eqI)
    fix j assume j: "j < LENGTH(8)"
    have dv: "(?d + j) div 8 = ?m - 1 - k" and md: "(?d + j) mod 8 = j"
      using j by simp_all
    have ix: "length s - Suc (?m - Suc k) = length s - 8 + k"
      using k by auto
    have lt: "?d + j < 64" and lt2: "?d + j < 8 * length s"
      using j k by auto
    show "bit (ucast (drop_bit ?d (PJW s :: 64 word)) :: byte) j = bit (s ! (length s - 8 + k)) j"
      using j lt lt2 by (simp add: bit_byte_of_drop_bit PJW_64_pack bit_pack8 dv md ix)
  qed
  moreover have "drop (length s - 8) s ! k = s ! (length s - 8 + k)"
    using k by simp
  ultimately show "be_bytes ?m (PJW s :: 64 word) ! k = drop (length s - 8) s ! k"
    using k by (simp add: be_bytes_def)
qed

end
