(* ===== verification/AP_Hash.thy ===== *)
theory AP_Hash
  imports Hash_Prelude
begin

text \<open>
  \<^verbatim>\<open>AP\<close> of \<^verbatim>\<open>src/gpshash.go\<close>, Arash Partow's hash: the only function of the package
  whose loop body reads the index \<^verbatim>\<open>i\<close> as well as the byte. On even positions it
  mixes the byte in by a multiplication, on odd positions by an addition under a
  complement. The model keeps the index test of the code, \<^verbatim>\<open>(i & 1) == 0\<close>; the
  lemmas show it equal to a reference definition that consumes the string two bytes at a
  time (an even step, then an odd step), and that the byte at an odd position is never
  lost.
\<close>

section \<open>The code\<close>

text \<open>
  \<^verbatim>\<open>if (i & 1) == 0 { hash ^= ((hash << 7) ^ uint(str[i])*(hash>>3)) }
  else { hash ^= (^((hash << 11) + (uint(str[i]) ^ (hash >> 5)))) }\<close>.
  In Go \<^verbatim>\<open>*\<close> and \<^verbatim>\<open><<\<close> bind tighter than the binary \<^verbatim>\<open>^\<close>. The index \<^verbatim>\<open>i\<close> is a
  Go \<^verbatim>\<open>int\<close> counting up from 0, never negative: a \<open>nat\<close>.
\<close>

definition AP_step :: "nat \<Rightarrow> 'a::len word \<Rightarrow> byte \<Rightarrow> 'a word" where
  "AP_step i hash c =
     (if i AND 1 = 0
      then hash XOR ((push_bit 7 hash) XOR (widen c * drop_bit 3 hash))
      else hash XOR (NOT ((push_bit 11 hash) + (widen c XOR (drop_bit 5 hash)))))"

fun AP_loop :: "nat \<Rightarrow> 'a::len word \<Rightarrow> gostring \<Rightarrow> 'a word" where
  "AP_loop i hash [] = hash"
| "AP_loop i hash (c # cs) = AP_loop (Suc i) (AP_step i hash c) cs"

definition AP :: "gostring \<Rightarrow> 'a::len word" where
  "AP str = AP_loop 0 0xAAAAAAAA str"

declare AP_step_def [hash_defs] AP_def [hash_defs]

section \<open>The reference: pairs of bytes\<close>

definition AP_even :: "'a::len word \<Rightarrow> byte \<Rightarrow> 'a word" where
  "AP_even hash c = hash XOR (push_bit 7 hash XOR (widen c * drop_bit 3 hash))"

definition AP_odd :: "'a::len word \<Rightarrow> byte \<Rightarrow> 'a word" where
  "AP_odd hash c = hash XOR NOT (push_bit 11 hash + (widen c XOR drop_bit 5 hash))"

fun AP_pairs :: "'a::len word \<Rightarrow> gostring \<Rightarrow> 'a word" where
  "AP_pairs hash [] = hash"
| "AP_pairs hash [c] = AP_even hash c"
| "AP_pairs hash (c # d # cs) = AP_pairs (AP_odd (AP_even hash c) d) cs"

section \<open>Lemmas\<close>

lemma AP_step_parity:
  "AP_step i hash c = (if even i then AP_even hash c else AP_odd hash c)"
  by (simp add: AP_step_def AP_even_def AP_odd_def and_one_eq even_iff_mod_2_eq_zero)

lemma AP_loop_append:
  "AP_loop i hash (xs @ ys) = AP_loop (i + length xs) (AP_loop i hash xs) ys"
  by (induction xs arbitrary: i hash) simp_all

lemma AP_loop_pairs: "AP_loop (2 * k) hash cs = AP_pairs hash cs"
proof (induction hash cs arbitrary: k rule: AP_pairs.induct)
  case (1 hash)
  then show ?case by simp
next
  case (2 hash c)
  then show ?case by (simp add: AP_step_parity)
next
  case (3 hash c d cs)
  have "AP_loop (2 * Suc k) (AP_odd (AP_even hash c) d) cs
          = AP_pairs (AP_odd (AP_even hash c) d) cs"
    by (rule "3.IH")
  then show ?case by (simp add: AP_step_parity)
qed

text \<open>C7: AP's index test (i & 1) == 0 makes it equal to a reference that takes the bytes two at a time: an even step, then an odd step.\<close>

theorem AP_eq_pairs: "(AP str :: 'a::len word) = AP_pairs 0xAAAAAAAA str"
  using AP_loop_pairs [of 0 "0xAAAAAAAA" str] by (simp add: AP_def)

lemma AP_odd_inj:
  assumes "8 \<le> LENGTH('a)"
  shows "(AP_odd hash c :: 'a::len word) = AP_odd hash c' \<longleftrightarrow> c = c'"
  by (simp add: AP_odd_def xor_cancel_left_iff xor_cancel_right_iff widen_inj_iff [OF assms])

text \<open>C31: A byte at an odd position of the AP loop that ends the string is never lost: changing it changes the hash, on any width of at least 8 bits.\<close>

theorem AP_odd_position_byte_kept:
  assumes "8 \<le> LENGTH('a)" and "odd (length s)"
    and "(AP (s @ [c]) :: 'a::len word) = AP (s @ [c'])"
  shows "c = c'"
proof -
  have "AP_odd (AP_loop 0 0xAAAAAAAA s) c = (AP_odd (AP_loop 0 0xAAAAAAAA s) c' :: 'a word)"
    using assms(2,3) by (simp add: AP_def AP_loop_append AP_step_parity)
  then show ?thesis by (simp add: AP_odd_inj [OF assms(1)])
qed

theorem AP_odd_position_byte_kept_witness:
  "8 \<le> LENGTH(64) \<and> odd (length [1::byte])
   \<and> (AP ([1] @ [5]) :: 64 word) = AP ([1] @ [5]) \<and> (5::byte) = 5"
  using AP_odd_position_byte_kept [of "[1]" 5 5, where 'a = 64] by simp

end
