(* ===== verification/Go_Loop.thy ===== *)
theory Go_Loop
  imports Hash_Prelude
begin

text \<open>
  The loop every function of \<^verbatim>\<open>src/gpshash.go\<close> is built on, written as Go writes it:
  \<^verbatim>\<open>for i := 0; i < len(str); i++ { ... str[i] ... }\<close>. Go's string indexing
  \<^verbatim>\<open>str[i]\<close> is bounds-checked and panics when \<open>i \<ge> len(str)\<close>; the model returns the
  panic as the value \<open>Inl (IndexOutOfRange i n)\<close> of a sum type. The loop counter grows, so
  \<open>go_for\<close> is a \<^theory_text>\<open>function\<close> whose termination measure is \<open>len(str) - i\<close>.

  The lemmas show that the guard \<open>i < len(str)\<close> makes every read in range, so the loop
  never panics, and that it hands the body the pairs \<open>(i, str[i])\<close> for
  \<open>i = 0 \<dots> len(str) - 1\<close>, each once and in order (\<open>go_for_trace\<close>): the loop is the
  fold of the body over the string, which is how the component theories state each hash.
  They also give the error path of \<^verbatim>\<open>str[i]\<close> exactly: it panics iff
  \<open>i \<ge> len(str)\<close>.
\<close>

section \<open>Bounds-checked indexing and the loop\<close>

datatype go_panic = IndexOutOfRange nat nat

text \<open>\<^verbatim>\<open>str[i]\<close>: the byte at \<open>i\<close>, or Go's run-time panic \<^verbatim>\<open>index out of range [i] with length n\<close>.\<close>

definition go_index :: "gostring \<Rightarrow> nat \<Rightarrow> go_panic + byte" where
  "go_index str i =
     (if i < length str then Inr (str ! i) else Inl (IndexOutOfRange i (length str)))"

text \<open>
  \<^verbatim>\<open>for ; i < len(str); i++ { s = body(i, s, str[i]) }\<close>, started at \<open>i\<close>: the body
  receives the index, the state of the loop variables and the byte read.
\<close>

function go_for ::
  "(nat \<Rightarrow> 's \<Rightarrow> byte \<Rightarrow> 's) \<Rightarrow> nat \<Rightarrow> 's \<Rightarrow> gostring \<Rightarrow> go_panic + 's" where
  "go_for body i s str =
     (if i < length str
      then (case go_index str i of
              Inl e \<Rightarrow> Inl e
            | Inr c \<Rightarrow> go_for body (Suc i) (body i s c) str)
      else Inr s)"
  by pat_completeness auto
termination
  by (relation "measure (\<lambda>(body, i, s, str). length str - i)") auto

text \<open>The index and byte each iteration of the loop gives its body, in order.\<close>

function go_for_trace :: "nat \<Rightarrow> gostring \<Rightarrow> (nat \<times> byte) list" where
  "go_for_trace i str =
     (if i < length str then (i, str ! i) # go_for_trace (Suc i) str else [])"
  by pat_completeness auto
termination
  by (relation "measure (\<lambda>(i, str). length str - i)") auto

declare go_for.simps [simp del] go_for_trace.simps [simp del]

section \<open>The loop reads every byte once, in order, and never panics\<close>

lemma go_for_trace_zip: "go_for_trace i str = zip [i..<length str] (drop i str)"
proof (induction i str rule: go_for_trace.induct)
  case (1 i str)
  show ?case
  proof (cases "i < length str")
    case True
    then have "[i..<length str] = i # [Suc i..<length str]"
      by (simp add: upt_conv_Cons)
    moreover have "drop i str = str ! i # drop (Suc i) str"
      using True by (simp add: Cons_nth_drop_Suc)
    ultimately show ?thesis
      using True "1.IH" by (simp add: go_for_trace.simps [of i str])
  next
    case False
    then show ?thesis by (simp add: go_for_trace.simps [of i str])
  qed
qed

lemma go_for_fold:
  "go_for body i s str = Inr (foldl (\<lambda>s (j, c). body j s c) s (go_for_trace i str))"
proof (induction body i s str rule: go_for.induct)
  case (1 body i s str)
  show ?case
  proof (cases "i < length str")
    case True
    then show ?thesis
      using "1.IH" [OF True, of "str ! i"]
      by (simp add: go_for.simps [of body i s str] go_for_trace.simps [of i str] go_index_def)
  next
    case False
    then show ?thesis
      by (simp add: go_for.simps [of body i s str] go_for_trace.simps [of i str])
  qed
qed

text \<open>A body that ignores the index folds over the bytes alone.\<close>

lemma foldl_zip_ignore_index:
  "length js = length cs \<Longrightarrow>
     foldl (\<lambda>s (j, c). f s c) s (zip js cs) = foldl f s cs"
proof (induction cs arbitrary: js s)
  case Nil
  then show ?case by simp
next
  case (Cons c cs)
  then obtain j js' where "js = j # js'" and "length js' = length cs"
    by (cases js) auto
  with Cons.IH show ?case by simp
qed

lemma go_for_no_index:
  "go_for (\<lambda>_. f) 0 s str = Inr (foldl f s str)"
  by (simp add: go_for_fold go_for_trace_zip foldl_zip_ignore_index)

text \<open>C15: The loop started at 0 hands its body exactly the pairs (i, str[i]) for i = 0, ..., len(str)-1, each once and in increasing order: go_for returns the fold of the body over zip [0..<len(str)] str.\<close>

theorem go_for_visits_each_byte:
  "go_for body 0 s str = Inr (foldl (\<lambda>s (i, c). body i s c) s (zip [0..<length str] str))"
  by (simp add: go_for_fold go_for_trace_zip)

text \<open>C12: The loop returns for every body, start index, state and string: it neither runs forever (its counter approaches len(str)) nor panics (the guard i < len(str) keeps every str[i] in range).\<close>

theorem go_for_returns: "\<exists>s'. go_for body i s str = Inr s'"
proof (induction body i s str rule: go_for.induct)
  case (1 body i s str)
  show ?case
  proof (cases "i < length str")
    case True
    then show ?thesis
      using "1.IH" [OF True, of "str ! i"]
      by (simp add: go_for.simps [of body i s str] go_index_def)
  next
    case False
    then show ?thesis by (simp add: go_for.simps [of body i s str])
  qed
qed

text \<open>An invariant that the body keeps on in-range calls holds at the end of the loop.\<close>

lemma go_for_invariant:
  "P t \<Longrightarrow> (\<And>i s. i < length str \<Longrightarrow> P s \<Longrightarrow> P (body i s (str ! i)))
   \<Longrightarrow> \<exists>s'. go_for body j t str = Inr s' \<and> P s'"
proof (induction body j t str rule: go_for.induct)
  case (1 body j t str)
  show ?case
  proof (cases "j < length str")
    case True
    then have "P (body j t (str ! j))" using "1.prems" by blast
    then obtain s' where "go_for body (Suc j) (body j t (str ! j)) str = Inr s'" and "P s'"
      using "1.IH" [OF True, of "str ! j"] "1.prems"(2) True by (auto simp: go_index_def)
    then show ?thesis using True by (simp add: go_for.simps [of body j t str] go_index_def)
  next
    case False
    then show ?thesis using "1.prems" by (simp add: go_for.simps [of body j t str])
  qed
qed

text \<open>C16: Safety of the reads: the loop calls its body only at indices i < len(str), with the byte str[i]. So any property of the loop variables that the body keeps on such in-range calls, and that holds at the start, holds in the state the loop returns.\<close>

theorem go_for_safe_reads:
  assumes "P s" and "\<And>i s. i < length str \<Longrightarrow> P s \<Longrightarrow> P (body i s (str ! i))"
  shows "\<exists>s'. go_for body 0 s str = Inr s' \<and> P s'"
  using assms by (rule go_for_invariant)

theorem go_for_safe_reads_witness:
  "\<exists>s'. go_for (\<lambda>i s c. c) 0 (0::byte) (go_string ''ab'') = Inr s'
        \<and> (s' = 0 \<or> s' \<in> set (go_string ''ab''))"
  by (rule go_for_safe_reads [where P = "\<lambda>s. s = 0 \<or> s \<in> set (go_string ''ab'')"])
    (simp_all add: nth_mem)

end
