(* ===== verification/Go_Loop_Steps.thy ===== *)
theory Go_Loop_Steps
  imports Go_Loop "HOL-Library.While_Combinator"
begin

text \<open>
  Two more views of the loop \<^verbatim>\<open>for i := 0; i < len(str); i++ { s = body(i, s, str[i]) }\<close>
  of \<^verbatim>\<open>src/gpshash.go\<close>, beside the recursive \<open>go_for\<close> of \<open>Go_Loop\<close>:
  \<^item> a small-step semantics: a configuration is the loop counter and the loop variables,
    \<open>go_loop_step\<close> is one iteration (guard \<open>i < len(str)\<close>, the read \<open>str[i]\<close>, the
    body, \<open>i++\<close>), and \<open>go_exited\<close> is the exit condition \<open>\<not> i < len(str)\<close>;
  \<^item> the loop kept as a loop, \<open>go_while\<close>, with the library's \<open>while_option\<close>, where
    \<open>None\<close> would mean that the loop does not stop.
  The lemmas show that the exit configurations are exactly those without a successor,
  that the step is deterministic, so a run stops in one configuration only, that from
  every configuration the loop reaches its exit in the state \<open>go_for\<close> computes
  (liveness), and that \<open>while_option\<close> returns that same state.
\<close>

section \<open>Configurations, steps and the loop as a while loop\<close>

type_synonym 's go_config = "nat \<times> 's"

inductive go_loop_step :: "(nat \<Rightarrow> 's \<Rightarrow> byte \<Rightarrow> 's) \<Rightarrow> gostring \<Rightarrow> 's go_config \<Rightarrow> 's go_config \<Rightarrow> bool"
  for body str where
  iter: "i < length str \<Longrightarrow> go_index str i = Inr c \<Longrightarrow> go_loop_step body str (i, s) (Suc i, body i s c)"

definition go_exited :: "gostring \<Rightarrow> 's go_config \<Rightarrow> bool" where
  "go_exited str cfg = (\<not> fst cfg < length str)"

definition go_while :: "(nat \<Rightarrow> 's \<Rightarrow> byte \<Rightarrow> 's) \<Rightarrow> gostring \<Rightarrow> 's \<Rightarrow> 's go_config option" where
  "go_while body str s =
     while_option (\<lambda>(i, _). i < length str) (\<lambda>(i, s). (Suc i, body i s (str ! i))) (0, s)"

section \<open>Steps, exits and runs\<close>

lemma go_loop_step_iff:
  "go_loop_step body str (i, s) cfg' \<longleftrightarrow> i < length str \<and> cfg' = (Suc i, body i s (str ! i))"
  by (auto simp: go_loop_step.simps go_index_def)

lemma go_exited_no_step: "go_exited str cfg \<longleftrightarrow> (\<nexists>cfg'. go_loop_step body str cfg cfg')"
  by (cases cfg) (auto simp: go_exited_def go_loop_step_iff)

lemma go_loop_step_deterministic:
  "go_loop_step body str cfg c1 \<Longrightarrow> go_loop_step body str cfg c2 \<Longrightarrow> c1 = c2"
  by (cases cfg) (simp add: go_loop_step_iff)

text \<open>A run that stops, stops where every other run that stops does.\<close>

lemma go_loop_exit_unique:
  assumes "(go_loop_step body str)\<^sup>*\<^sup>* cfg c1" and "go_exited str c1"
    and "(go_loop_step body str)\<^sup>*\<^sup>* cfg c2" and "go_exited str c2"
  shows "c1 = c2"
  using assms
proof (induction arbitrary: c2 rule: converse_rtranclp_induct)
  case base
  from base.prems(2) show ?case
    using base.prems(1) go_exited_no_step [of str c1 body] by (auto elim: converse_rtranclpE)
next
  case (step cfg cfg')
  have "c2 = cfg \<or> (\<exists>cfg''. go_loop_step body str cfg cfg'' \<and> (go_loop_step body str)\<^sup>*\<^sup>* cfg'' c2)"
    using step.prems(2) by (auto elim: converse_rtranclpE)
  then show ?case
  proof
    assume "c2 = cfg"
    then show ?thesis using step.hyps(1) step.prems(3) go_exited_no_step [of str c2 body] by blast
  next
    assume "\<exists>cfg''. go_loop_step body str cfg cfg'' \<and> (go_loop_step body str)\<^sup>*\<^sup>* cfg'' c2"
    then obtain cfg'' where first: "go_loop_step body str cfg cfg''"
      and rest: "(go_loop_step body str)\<^sup>*\<^sup>* cfg'' c2" by blast
    from first step.hyps(1) have "cfg'' = cfg'" by (rule go_loop_step_deterministic)
    with rest step.IH step.prems(1,3) show ?thesis by blast
  qed
qed

section \<open>The loop reaches its exit\<close>

lemma go_for_steps:
  "go_for body i s str = Inr s' \<Longrightarrow> (go_loop_step body str)\<^sup>*\<^sup>* (i, s) (max i (length str), s')"
proof (induction body i s str arbitrary: s' rule: go_for.induct)
  case (1 body i s str)
  show ?case
  proof (cases "i < length str")
    case True
    then have "go_for body (Suc i) (body i s (str ! i)) str = Inr s'"
      using "1.prems" by (simp add: go_for.simps [of body i s str] go_index_def)
    then have "(go_loop_step body str)\<^sup>*\<^sup>* (Suc i, body i s (str ! i)) (max (Suc i) (length str), s')"
      using "1.IH" [OF True, of "str ! i"] True by (simp add: go_index_def)
    moreover have "go_loop_step body str (i, s) (Suc i, body i s (str ! i))"
      using True by (simp add: go_loop_step_iff)
    ultimately show ?thesis using True
      by (simp add: converse_rtranclp_into_rtranclp max_def)
  next
    case False
    then show ?thesis using "1.prems" by (simp add: go_for.simps [of body i s str])
  qed
qed

text \<open>C23: Liveness of the loop: from every configuration (i, s) the loop eventually reaches its exit i >= len(str), in the state go_for returns, and it stops there (no step leaves an exit configuration).\<close>

theorem go_loop_reaches_exit:
  "\<exists>s'. go_for body i s str = Inr s'
       \<and> (go_loop_step body str)\<^sup>*\<^sup>* (i, s) (max i (length str), s')
       \<and> go_exited str (max i (length str), s')
       \<and> (\<nexists>cfg. go_loop_step body str (max i (length str), s') cfg)"
proof -
  obtain s' where s': "go_for body i s str = Inr s'"
    using go_for_fold [of body i s str] by blast
  have "go_exited str (max i (length str), s')"
    by (simp add: go_exited_def)
  then show ?thesis
    using s' go_for_steps [OF s'] go_exited_no_step [of str _ body] by blast
qed

section \<open>The while loop computes the same state\<close>

lemma go_while_from:
  "go_for body i s str = Inr s' \<Longrightarrow>
   while_option (\<lambda>(i, _). i < length str) (\<lambda>(i, s). (Suc i, body i s (str ! i))) (i, s)
   = Some (max i (length str), s')"
proof (induction body i s str arbitrary: s' rule: go_for.induct)
  case (1 body i s str)
  show ?case
  proof (cases "i < length str")
    case True
    then have "go_for body (Suc i) (body i s (str ! i)) str = Inr s'"
      using "1.prems" by (simp add: go_for.simps [of body i s str] go_index_def)
    then have "while_option (\<lambda>(i, _). i < length str) (\<lambda>(i, s). (Suc i, body i s (str ! i)))
        (Suc i, body i s (str ! i)) = Some (max (Suc i) (length str), s')"
      using "1.IH" [OF True, of "str ! i"] True by (simp add: go_index_def)
    then show ?thesis using True by (subst while_option_unfold) (simp add: max_def)
  next
    case False
    then show ?thesis using "1.prems"
      by (subst while_option_unfold) (simp add: go_for.simps [of body i s str])
  qed
qed

text \<open>C24: The loop written with while_option (the loop kept as a loop) returns, with the counter at len(str) and the same loop state as the recursive go_for.\<close>

theorem go_while_is_go_for:
  "\<exists>s'. go_for body 0 s str = Inr s' \<and> go_while body str s = Some (length str, s')"
proof -
  obtain s' where "go_for body 0 s str = Inr s'"
    using go_for_fold [of body 0 s str] by blast
  then show ?thesis using go_while_from [of body 0 s str s'] by (simp add: go_while_def)
qed

end
