(* ===== verification/Doc_Example.thy ===== *)
theory Doc_Example
  imports Multiplicative_Hashes
begin

text \<open>
  The usage example of the package documentation (\<^verbatim>\<open>src/doc.go\<close>, lines 14-17):
  \<^verbatim>\<open>h := hash.RS("abcdefghijklmnopqrstuvwxyz1234567890"); fmt.Println(h)\<close>.
  The program's output is its standard output, a string. \<^verbatim>\<open>fmt.Println\<close> of a
  \<^verbatim>\<open>uint\<close> belongs to Go's library; it is modelled by \<open>fmt_Println_uint\<close>: the
  decimal digits of the value, most significant first, without leading zeros, then a
  newline (\<^verbatim>\<open>strconv.FormatUint(h, 10)\<close> looks the digits up in the table
  \<^verbatim>\<open>"0123456789"\<close>). The width of \<^verbatim>\<open>uint\<close> is the platform's, so
  \<open>doc_main\<close> takes the word type as an argument (\<open>TYPE(64)\<close> or \<open>TYPE(32)\<close>).

  The lemmas give the line the example prints on each width, show that the printed line
  is a canonical decimal numeral (digits only, no leading zero) followed by a newline,
  and that reading it back gives the hash.
\<close>

section \<open>Decimal output of an unsigned integer\<close>

text \<open>Go's \<^verbatim>\<open>strconv\<close> table of digits, of which base 10 uses the first ten.\<close>

definition digits :: string where
  "digits = ''0123456789''"

fun decimal :: "nat \<Rightarrow> string" where
  "decimal n = (if n < 10 then [digits ! n]
                else decimal (n div 10) @ [digits ! (n mod 10)])"

definition fmt_Println_uint :: "'a::len word \<Rightarrow> string" where
  "fmt_Println_uint h = decimal (unat h) @ ''\<newline>''"

text \<open>The reading of a decimal numeral, the inverse of \<open>decimal\<close>.\<close>

definition read_decimal :: "string \<Rightarrow> nat" where
  "read_decimal s = foldl (\<lambda>acc ch. 10 * acc + (of_char ch - 48 :: nat)) 0 s"

section \<open>The example program\<close>

definition doc_main :: "'a::len itself \<Rightarrow> string" where
  "doc_main (t :: 'a itself) =
     (let h = (RS (go_string ''abcdefghijklmnopqrstuvwxyz1234567890'') :: 'a word)
      in fmt_Println_uint h)"

declare decimal.simps [simp del]

section \<open>Decimal numerals\<close>

lemma below_10_cases:
  "d < 10 \<Longrightarrow> d = 0 \<or> d = 1 \<or> d = 2 \<or> d = 3 \<or> d = 4 \<or> d = 5 \<or> d = 6 \<or> d = 7 \<or> d = 8 \<or> d = (9::nat)"
  by (simp add: numeral_eq_Suc less_Suc_eq)

lemma decimal_digit_value: "d < 10 \<Longrightarrow> of_char (digits ! d) - 48 = d"
  using below_10_cases [of d] by (auto simp: digits_def)

lemma decimal_digit_mem: "d < 10 \<Longrightarrow> digits ! d \<in> set digits"
  by (rule nth_mem) (simp add: digits_def)

lemma read_decimal_decimal: "read_decimal (decimal n) = n"
proof (induction n rule: decimal.induct)
  case (1 n)
  show ?case
  proof (cases "n < 10")
    case True
    then show ?thesis by (simp add: decimal.simps [of n] read_decimal_def decimal_digit_value)
  next
    case False
    then have "read_decimal (decimal (n div 10)) = n div 10" using "1.IH" by simp
    then show ?thesis using False
      by (simp add: decimal.simps [of n] read_decimal_def decimal_digit_value)
  qed
qed

lemma decimal_digits: "set (decimal n) \<subseteq> set digits"
proof (induction n rule: decimal.induct)
  case (1 n)
  then show ?case by (simp add: decimal.simps [of n] decimal_digit_mem)
qed

lemma decimal_not_Nil: "decimal n \<noteq> []"
  by (simp add: decimal.simps [of n])

text \<open>No leading zero: a numeral starts with \<open>0\<close> only when it is \<open>0\<close>.\<close>

lemma decimal_hd_zero_iff: "hd (decimal n) = CHR ''0'' \<longleftrightarrow> n = 0"
proof (induction n rule: decimal.induct)
  case (1 n)
  show ?case
  proof (cases "n < 10")
    case True
    then show ?thesis
      using below_10_cases [of n] by (auto simp: decimal.simps [of n] digits_def)
  next
    case False
    then have "hd (decimal n) = hd (decimal (n div 10))"
      by (simp add: decimal.simps [of n] decimal_not_Nil)
    then show ?thesis using "1.IH" False by simp
  qed
qed

lemma fmt_Println_uint_line: "butlast (fmt_Println_uint h) = decimal (unat h)
  \<and> last (fmt_Println_uint h) = CHR ''\<newline>''"
  by (simp add: fmt_Println_uint_def)

section \<open>What the example prints\<close>

text \<open>On a 64-bit platform the documentation's example prints the line 6985544498910593518.\<close>

theorem doc_main_64_output: "doc_main TYPE(64) = ''6985544498910593518\<newline>''"
proof -
  have rs: "(RS (go_string ''abcdefghijklmnopqrstuvwxyz1234567890'') :: 64 word)
      = 6985544498910593518"
    by code_simp
  show ?thesis
    unfolding doc_main_def fmt_Println_uint_def Let_def rs by (simp add: decimal.simps digits_def)
qed

text \<open>The example's output depends on the platform: on a 32-bit platform it prints 4097835502, the 64-bit value modulo 2^32, not the 64-bit line.\<close>

theorem doc_main_platform_dependent:
  "doc_main TYPE(32) = ''4097835502\<newline>'' \<and> doc_main TYPE(32) \<noteq> doc_main TYPE(64)"
proof -
  have rs32: "(RS (go_string ''abcdefghijklmnopqrstuvwxyz1234567890'') :: 32 word) = 4097835502"
    by code_simp
  have rs64: "(RS (go_string ''abcdefghijklmnopqrstuvwxyz1234567890'') :: 64 word)
      = 6985544498910593518"
    by code_simp
  show ?thesis
    unfolding doc_main_def fmt_Println_uint_def Let_def rs32 rs64 by (simp add: decimal.simps digits_def)
qed

text \<open>On every width the example prints one line made of decimal digits only, and reading that numeral back gives the value RS returns: the output is exactly the hash.\<close>

theorem doc_main_prints_hash:
  "set (butlast (doc_main TYPE('a::len))) \<subseteq> set digits
   \<and> last (doc_main TYPE('a)) = CHR ''\<newline>''
   \<and> read_decimal (butlast (doc_main TYPE('a)))
       = unat (RS (go_string ''abcdefghijklmnopqrstuvwxyz1234567890'') :: 'a word)"
  by (simp add: doc_main_def fmt_Println_uint_line decimal_digits read_decimal_decimal)


text \<open>The example's output line is a canonical decimal numeral on every width: at least one digit before the newline, and a leading 0 exactly when RS returns 0.\<close>

theorem doc_main_canonical_numeral:
  "butlast (doc_main TYPE('a::len)) \<noteq> []
   \<and> (hd (doc_main TYPE('a)) = CHR ''0'')
       = ((RS (go_string ''abcdefghijklmnopqrstuvwxyz1234567890'') :: 'a word) = 0)"
  by (simp add: doc_main_def fmt_Println_uint_line fmt_Println_uint_def decimal_not_Nil
      decimal_hd_zero_iff unat_eq_zero)

end
