(* ===== verification/Spec2Isabelle.thy ===== *)
theory Spec2Isabelle
  imports Multiplicative_Hashes Shift_Xor_Hashes Masked_Hashes AP_Hash Go_Loop Go_Loop_Steps Doc_Example
begin

text \<open>
  \<^bold>\<open>GPSHash in Isabelle/HOL.\<close>
  The Go package \<^verbatim>\<open>gpshash\<close> (\<^verbatim>\<open>src/gpshash.go\<close>; \<^verbatim>\<open>src/doc.go\<close> is its package
  comment) exports eleven independent string hash functions
  \<^verbatim>\<open>AP BP BKDR DJB DEK ELF FNV JS PJW RS SDBM\<close>, each \<^verbatim>\<open>func H(str string) uint\<close>.
  None keeps state between calls and none calls another: the parts interact only through
  the common signature, which this theory gathers in the datatype \<open>algorithm\<close> and the
  dispatch \<open>hash_with\<close>.

  \<^bold>\<open>The model.\<close> \<^verbatim>\<open>Hash_Prelude\<close> fixes the shared types: a Go string is a list of
  bytes (\<open>gostring = 8 word list\<close>), Go's \<^verbatim>\<open>uint\<close> is \<open>'a::len word\<close> with the
  width a type parameter (Go has 32 and 64; a theorem stated for \<open>'a\<close> holds for both),
  \<^verbatim>\<open>uint(str[i])\<close> is \<open>widen\<close>, \<^verbatim>\<open><<\<close> and \<^verbatim>\<open>>>\<close> are \<open>push_bit\<close> and \<open>drop_bit\<close>,
  and arithmetic wraps modulo \<open>2\<^sup>W\<close> as Go's does. Each function is its loop body
  \<open>H_step\<close> (the statements of the \<^verbatim>\<open>for\<close> body, in the code's order and with its
  \<^verbatim>\<open>if\<close>) and its entry point \<open>H\<close>, the body folded over the bytes from the code's
  initial value; the loops are structural, so every function is total and executable,
  and no fuel is needed. The theories, one per group of the file:
  \<^item> \<^verbatim>\<open>Multiplicative_Hashes\<close>: \<open>BKDR\<close>, \<open>DJB\<close>, \<open>SDBM\<close> and \<open>RS\<close> (with the
    record \<open>rs_state\<close> for the two loop variables \<^verbatim>\<open>hash\<close> and \<^verbatim>\<open>a\<close>);
  \<^item> \<^verbatim>\<open>Shift_Xor_Hashes\<close>: \<open>BP\<close>, \<open>FNV\<close>, \<open>JS\<close>, \<open>DEK\<close>;
  \<^item> \<^verbatim>\<open>Masked_Hashes\<close>: \<open>ELF\<close> and \<open>PJW\<close> with its width-derived constants
    \<open>PJW_bitsPerWord\<close>, \<open>PJW_threeQuarters\<close>, \<open>PJW_oneEighth\<close>, \<open>PJW_highBits\<close>;
  \<^item> \<^verbatim>\<open>AP_Hash\<close>: \<open>AP\<close>, whose body also reads the index \<^verbatim>\<open>i\<close>
    (\<open>AP_loop\<close> carries it);
  \<^item> \<^verbatim>\<open>Go_Loop\<close>: the loop itself as Go writes it,
    \<^verbatim>\<open>for i := 0; i < len(str); i++\<close> with the bounds-checked read \<^verbatim>\<open>str[i]\<close>
    (\<open>go_index\<close>, a run-time panic is the value \<open>Inl (IndexOutOfRange i n)\<close>) and the
    loop \<open>go_for\<close>, a \<^theory_text>\<open>function\<close> whose termination measure is \<open>len(str) - i\<close>;
    this theory's \<open>go_hash\<close> writes each of the eleven functions with it;
  \<^item> \<^verbatim>\<open>Go_Loop_Steps\<close>: the same loop as a small-step relation \<open>go_loop_step\<close> on
    configurations \<open>(i, s)\<close> (counter and loop variables) with the exit condition
    \<open>go_exited\<close>, and kept as a loop with the library's \<open>while_option\<close>
    (\<open>go_while\<close>);
  \<^item> \<^verbatim>\<open>Doc_Example\<close>: the usage example \<^verbatim>\<open>main\<close> of \<^verbatim>\<open>src/doc.go\<close>,
    \<open>doc_main\<close>, as the line it prints; \<^verbatim>\<open>fmt.Println\<close> of a \<^verbatim>\<open>uint\<close> is modelled
    by \<open>fmt_Println_uint\<close> (decimal digits from Go's digit table, then a newline).
  The width of \<^verbatim>\<open>uint\<close> is the type argument: \<open>doc_main TYPE(64)\<close> is the program on a
  64-bit platform.

  \<^bold>\<open>What is proved.\<close>
  \<^item> Refinement: BKDR, DJB and SDBM compute \<open>horner c h\<close>, the positional value of the
    bytes over the unbounded integers, modulo \<open>2\<^sup>W\<close>; RS computes its integer recurrence
    \<open>rs_spec\<close> modulo \<open>2\<^sup>W\<close> (the whole loop state, hash and multiplier, by
    \<open>RS_loop_state_spec\<close>). AP's index test equals a pairwise reference; DEK on 32-bit
    words is Knuth's rotate-and-xor. Across the two widths: the low 32 bits of ELF on
    64-bit words are ELF on 32-bit words, and the same holds for BP, BKDR, DJB, FNV, RS
    and SDBM (\<open>low_word_32_of_64\<close>, by the generic \<open>foldl_ucast\<close> of the prelude).
  \<^item> The loop and its error path: the Go loop \<open>go_for\<close> returns on every input
    (termination by the measure) and never panics; started at 0 it hands its body the
    pairs \<open>(i, str[i])\<close> for \<open>i < len(str)\<close>, each once and in order
    (\<open>go_for_visits_each_byte\<close>), and every property the body keeps on such in-range
    calls holds of the state it returns (\<open>go_for_safe_reads\<close>). Hence each of the eleven
    functions written with the loop returns the fold model's value and never panics
    (\<open>go_hash_never_panics\<close>).
  \<^item> Liveness and the three views of the loop: in the small-step semantics every
    configuration reaches the exit \<open>i \<ge> len(str)\<close>, in the state \<open>go_for\<close> returns, and
    stops there; the step is deterministic, so a run that stops, stops there; the
    \<open>while_option\<close> loop returns that same state.
  \<^item> Invariants and bounds: ELF never sets bits 28 to 31, so on 32-bit words it stays
    below \<open>2\<^sup>2\<^sup>8\<close>; RS's loop as the inductive transition system \<open>rs_reachable\<close>
    reaches exactly the states whose hash and multiplier are the integer recurrence's
    values after some string (\<open>rs_reachable_states\<close>), and in all of them the multiplier
    is odd (rule induction).
  \<^item> Round trips: on 64-bit words PJW is the big-endian packing of the last eight bytes,
    which \<open>be_bytes\<close> reads back; on 32-bit words DEK's loop can be undone byte by byte.
  \<^item> Collisions: every multiplier of BKDR, DJB, SDBM, FNV and RS is odd, so a common
    suffix never creates nor hides a collision; the same holds for DEK on both widths,
    whose body is a rotation on 32-bit words and an injective xor of shifts on 64-bit
    words (its kernel is trivial, bit by bit) and whose loop is linear over xor. JS's body
    is not injective on any width of at least 14 bits: the hashes 319 and 320 merge on
    the byte 0, so a common suffix can create a JS collision (\<open>JS_merges_states\<close>;
    \<^verbatim>\<open>")/ "\<close> and \<^verbatim>\<open>"*% "\<close> collide on both widths). The last byte is never lost
    by nine of the functions; the zero-seeded ones ignore leading NUL bytes.
  \<^item> Findings: in PJW the mask \<^verbatim>\<open>highBits\<close> is the low-bit mask, so the folding branch
    is dead and PJW is a shift-and-add hash that keeps only the last 8 bytes; BP keeps
    only the last \<open>\<lceil>W/7\<rceil>\<close> bytes; on 64-bit words ELF's carry escapes above bit 31
    (\<open>ELF_64_carry_escapes\<close>); DEK's shifts are not a rotation on 64-bit words
    (\<open>DEK_64_not_rotate_xor\<close>); the documentation's example prints different numbers on
    32- and 64-bit platforms; JS lets a common suffix create a collision.
  \<^item> Known values, as lemmas evaluated by \<open>code_simp\<close>: the spec's vectors at 64 bits,
    PJW's constants at both widths, and the line the example of \<^verbatim>\<open>doc.go\<close> prints at 64
    and 32 bits, which reads back as the hash and is a canonical decimal numeral.

  \<^bold>\<open>Bounds and fuel.\<close> No fuel is used: the fold loops are structural, \<open>go_for\<close> and
  \<open>go_for_trace\<close> terminate by the measure \<open>len(str) - i\<close>, and \<open>decimal\<close> by its
  argument's size (it recurses on \<open>n div 10\<close>). \<open>go_while\<close> may in principle return
  \<open>None\<close> (a loop that does not stop); the theorem that it returns \<open>Some\<close> is proved, not
  assumed.

  \<^bold>\<open>Not modelled.\<close> Go's runtime, string representation and calling convention; the
  package clauses of both files and the imports of the example in \<^verbatim>\<open>doc.go\<close>, which
  only name packages; the comments, which are all that remains of the two files outside
  the model; \<^verbatim>\<open>fmt\<close> and \<^verbatim>\<open>strconv\<close> beyond the decimal printing of an unsigned
  integer. DEK's seed \<^verbatim>\<open>uint(len(str))\<close> is
  \<open>of_nat (length str)\<close>, reduced modulo \<open>2\<^sup>W\<close> as the Go conversion is, so no bound
  on the length is assumed.

  \<^bold>\<open>Plan for later work.\<close> An exact description of the bits of ELF above 31 on 64-bit
  words, and how much of the hash JS's body loses per byte (the size of its image).
\<close>

section \<open>The package as a set of hash functions\<close>

datatype algorithm =
  Alg_AP | Alg_BP | Alg_BKDR | Alg_DJB | Alg_DEK | Alg_ELF | Alg_FNV | Alg_JS | Alg_PJW
  | Alg_RS | Alg_SDBM

fun hash_with :: "algorithm \<Rightarrow> gostring \<Rightarrow> 'a::len word" where
  "hash_with Alg_AP str = AP str"
| "hash_with Alg_BP str = BP str"
| "hash_with Alg_BKDR str = BKDR str"
| "hash_with Alg_DJB str = DJB str"
| "hash_with Alg_DEK str = DEK str"
| "hash_with Alg_ELF str = ELF str"
| "hash_with Alg_FNV str = FNV str"
| "hash_with Alg_JS str = JS str"
| "hash_with Alg_PJW str = PJW str"
| "hash_with Alg_RS str = RS str"
| "hash_with Alg_SDBM str = SDBM str"

text \<open>The initial accumulator of each function, as the code declares it.\<close>

fun initial_state :: "algorithm \<Rightarrow> 'a::len word" where
  "initial_state Alg_AP = 0xAAAAAAAA"
| "initial_state Alg_DJB = 5381"
| "initial_state Alg_JS = 1315423911"
| "initial_state Alg_BP = 0"
| "initial_state Alg_BKDR = 0"
| "initial_state Alg_DEK = 0"
| "initial_state Alg_ELF = 0"
| "initial_state Alg_FNV = 0"
| "initial_state Alg_PJW = 0"
| "initial_state Alg_RS = 0"
| "initial_state Alg_SDBM = 0"

text \<open>
  Each function with its loop written as Go writes it: the counter \<open>i\<close>, the guard
  \<open>i < len(str)\<close> and the bounds-checked read \<^verbatim>\<open>str[i]\<close> of \<open>go_for\<close>, the loop body of the
  component theory and the code's initial values; RS returns the \<^verbatim>\<open>hash\<close> field of its
  loop state.
\<close>

fun go_hash :: "algorithm \<Rightarrow> gostring \<Rightarrow> go_panic + 'a::len word" where
  "go_hash Alg_AP str = go_for AP_step 0 0xAAAAAAAA str"
| "go_hash Alg_BP str = go_for (\<lambda>_. BP_step) 0 0 str"
| "go_hash Alg_BKDR str = go_for (\<lambda>_. BKDR_step 131) 0 0 str"
| "go_hash Alg_DJB str = go_for (\<lambda>_. DJB_step) 0 5381 str"
| "go_hash Alg_DEK str = go_for (\<lambda>_. DEK_step) 0 (of_nat (length str)) str"
| "go_hash Alg_ELF str = go_for (\<lambda>_. ELF_step) 0 0 str"
| "go_hash Alg_FNV str = go_for (\<lambda>_. FNV_step 0x811C9DC5) 0 0 str"
| "go_hash Alg_JS str = go_for (\<lambda>_. JS_step) 0 1315423911 str"
| "go_hash Alg_PJW str = go_for (\<lambda>_. PJW_step) 0 0 str"
| "go_hash Alg_RS str = map_sum id rs_hash (go_for (\<lambda>_. RS_step 378551) 0 RS_init str)"
| "go_hash Alg_SDBM str = go_for (\<lambda>_. SDBM_step) 0 0 str"

section \<open>Properties across the package\<close>

text \<open>Every one of the eleven functions returns its initial accumulator on the empty string (AP 0xAAAAAAAA, DJB 5381, JS 1315423911, DEK uint(len("")) = 0, the others 0).\<close>

theorem empty_input_is_seed: "(hash_with alg [] :: 'a::len word) = initial_state alg"
  by (cases alg) (simp_all add: hash_defs)

text \<open>C19: BP, BKDR, ELF, FNV, PJW and SDBM start from 0 and map (0, byte 0) to 0, so a leading NUL byte never changes their hash.\<close>

theorem leading_nul_ignored:
  assumes "alg \<in> {Alg_BP, Alg_BKDR, Alg_ELF, Alg_FNV, Alg_PJW, Alg_SDBM}"
  shows "(hash_with alg (0 # str) :: 'a::len word) = hash_with alg str"
  using assms by (auto simp: hash_defs Let_def)

theorem leading_nul_ignored_witness:
  "Alg_FNV \<in> {Alg_BP, Alg_BKDR, Alg_ELF, Alg_FNV, Alg_PJW, Alg_SDBM}
   \<and> (hash_with Alg_FNV [0, 97] :: 64 word) = hash_with Alg_FNV [97]"
  using leading_nul_ignored [of Alg_FNV "[97]", where 'a = 64] by simp

lemma AP_loop_indexed:
  "AP_loop i h cs = foldl (\<lambda>s (j, c). AP_step j s c) h (zip [i..<i + length cs] cs)"
proof (induction cs arbitrary: i h)
  case Nil
  then show ?case by simp
next
  case (Cons c cs)
  have "[i..<i + length (c # cs)] = i # [Suc i..<Suc i + length cs]"
    by (simp add: upt_rec)
  then show ?case by (simp add: Cons.IH)
qed

text \<open>C6: Written with Go's index loop and bounds-checked str[i], no function ever panics with an index out of range, and each returns exactly the value of the fold model.\<close>

theorem go_hash_never_panics: "(go_hash alg str :: go_panic + 'a::len word) = Inr (hash_with alg str)"
proof (cases alg)
  case Alg_AP
  then show ?thesis
    by (simp add: go_for_fold go_for_trace_zip AP_def AP_loop_indexed)
next
  case Alg_RS
  then show ?thesis by (simp add: go_for_no_index RS_def)
qed (simp_all add: go_for_no_index BP_def BKDR_def DJB_def DEK_def ELF_def FNV_def JS_def
  PJW_def SDBM_def)

text \<open>C18: For BP, BKDR, DJB, DEK, FNV, JS, PJW, RS and SDBM, two strings that differ only in their last byte have different hashes on any width of at least 8 bits.\<close>

theorem last_byte_injective:
  assumes "8 \<le> LENGTH('a)"
    and "alg \<in> {Alg_BP, Alg_BKDR, Alg_DJB, Alg_DEK, Alg_FNV, Alg_JS, Alg_PJW, Alg_RS, Alg_SDBM}"
    and "(hash_with alg (str @ [c]) :: 'a::len word) = hash_with alg (str @ [c'])"
  shows "c = c'"
  using assms(2,3)
  by (cases alg) (simp_all add: BP_def BP_step_def BKDR_def BKDR_step_def DJB_def
      DJB_step_def DEK_def DEK_step_def FNV_def FNV_step_def JS_def JS_step_def PJW_def
      PJW_step_shift_add RS_def SDBM_def SDBM_step_def Let_def xor_cancel_left_iff
      xor_cancel_right_iff widen_inj_iff [OF assms(1)])

theorem last_byte_injective_witness:
  "8 \<le> LENGTH(64)
   \<and> Alg_JS \<in> {Alg_BP, Alg_BKDR, Alg_DJB, Alg_DEK, Alg_FNV, Alg_JS, Alg_PJW, Alg_RS, Alg_SDBM}
   \<and> (hash_with Alg_JS ([97] @ [98]) :: 64 word) = hash_with Alg_JS ([97] @ [98])
   \<and> (98::byte) = 98"
  using last_byte_injective [of Alg_JS "[97]" 98 98, where 'a = 64] by simp

text \<open>
  The bodies of BP, BKDR, DJB, SDBM and FNV use only \<open>+\<close>, \<open>*\<close>, \<open><<\<close> and \<open>^\<close>,
  which commute with truncating a 64-bit word to its low 32 bits.
\<close>

lemma ucast_64_32_steps:
  "(ucast (BP_step h c :: 64 word) :: 32 word) = BP_step (ucast h) c"
  "(ucast (mul_add_step k h c :: 64 word) :: 32 word) = mul_add_step (ucast k) (ucast h) c"
  "(ucast (FNV_step p h c :: 64 word) :: 32 word) = FNV_step (ucast p) (ucast h) c"
  by (simp_all add: BP_step_def mul_add_step_def FNV_step_def Let_def ucast_xor
      ucast_push_bit_down ucast_widen ucast_down_add ucast_down_mult)

text \<open>C26: Across Go's two widths, BP, BKDR, DJB, FNV, RS and SDBM agree: for every string the 32-bit result is the low 32 bits of the 64-bit result (unlike AP, DEK, JS and PJW, whose right shifts or width-derived constants bring high bits down).\<close>

theorem low_word_32_of_64:
  assumes "alg \<in> {Alg_BP, Alg_BKDR, Alg_DJB, Alg_FNV, Alg_RS, Alg_SDBM}"
  shows "(ucast (hash_with alg str :: 64 word) :: 32 word) = hash_with alg str"
proof -
  have bp: "(ucast (foldl BP_step h str :: 64 word) :: 32 word) = foldl BP_step (ucast h) str" for h
    by (rule foldl_ucast) (rule ucast_64_32_steps(1))
  have ma: "(ucast (foldl (mul_add_step k) h str :: 64 word) :: 32 word)
      = foldl (mul_add_step (ucast k)) (ucast h) str" for k h
    by (rule foldl_ucast) (rule ucast_64_32_steps(2))
  have fnv: "(ucast (foldl (FNV_step p) h str :: 64 word) :: 32 word)
      = foldl (FNV_step (ucast p)) (ucast h) str" for p h
    by (rule foldl_ucast) (rule ucast_64_32_steps(3))
  have eq: "foldl (RS_step 378551) RS_init str
        = (\<lparr>rs_hash = word_of_int (rs_spec 378551 63689 0 str),
            rs_a = word_of_int (63689 * 378551 ^ length str)\<rparr> :: 64 word rs_state)"
      "foldl (RS_step 378551) RS_init str
        = (\<lparr>rs_hash = word_of_int (rs_spec 378551 63689 0 str),
            rs_a = word_of_int (63689 * 378551 ^ length str)\<rparr> :: 32 word rs_state)"
    using RS_loop_state_spec [of 378551 0 63689 str, where 'a = 64]
      RS_loop_state_spec [of 378551 0 63689 str, where 'a = 32]
    by (simp_all add: RS_init_def)
  have rs: "(RS str :: 64 word) = word_of_int (rs_spec 378551 63689 0 str)"
      "(RS str :: 32 word) = word_of_int (rs_spec 378551 63689 0 str)"
    by (simp_all add: RS_def eq)
  show ?thesis
    using assms
    by (auto simp: BP_def bp BKDR_def BKDR_step_mul_add DJB_def DJB_step_mul_add SDBM_def
        SDBM_step_mul_add ma FNV_def fnv rs ucast_down_word_of_int)
qed

theorem low_word_32_of_64_witness:
  "Alg_FNV \<in> {Alg_BP, Alg_BKDR, Alg_DJB, Alg_FNV, Alg_RS, Alg_SDBM}
   \<and> (ucast (hash_with Alg_FNV [97] :: 64 word) :: 32 word) = hash_with Alg_FNV [97]"
  using low_word_32_of_64 [of Alg_FNV "[97]"] by simp

text \<open>C27: For BKDR, DJB, SDBM and FNV, whose multipliers 131, 33, 65599 and 0x811C9DC5 are odd, appending a common suffix to two strings neither creates nor removes a collision, on any width.\<close>

theorem odd_multiplier_suffix_collision:
  "alg \<in> {Alg_BKDR, Alg_DJB, Alg_SDBM, Alg_FNV} \<Longrightarrow>
   (hash_with alg (xs @ zs) :: 'a::len word) = hash_with alg (ys @ zs)
   \<longleftrightarrow> (hash_with alg xs :: 'a word) = hash_with alg ys"
  by (auto simp: BKDR_suffix_collision DJB_suffix_collision SDBM_suffix_collision
      FNV_suffix_collision)

theorem odd_multiplier_suffix_collision_witness:
  "Alg_DJB \<in> {Alg_BKDR, Alg_DJB, Alg_SDBM, Alg_FNV}
   \<and> ((hash_with Alg_DJB ([1] @ [3]) :: 64 word) = hash_with Alg_DJB ([2] @ [3])
      \<longleftrightarrow> (hash_with Alg_DJB [1] :: 64 word) = hash_with Alg_DJB [2])"
  using odd_multiplier_suffix_collision [of Alg_DJB "[1]" "[3]" "[2]", where 'a = 64] by simp

text \<open>On 64-bit words BKDR("") = 0, DJB("") = 5381, DJB("a") = 177670, RS("") = 0, SDBM("") = 0 and the doc.go example RS("abcdefghijklmnopqrstuvwxyz1234567890") = 6985544498910593518.\<close>

theorem known_vectors_64:
  "(BKDR [] :: 64 word) = 0 \<and> (DJB [] :: 64 word) = 5381
   \<and> (DJB (go_string ''a'') :: 64 word) = 177670 \<and> (RS [] :: 64 word) = 0
   \<and> (SDBM [] :: 64 word) = 0
   \<and> (RS (go_string ''abcdefghijklmnopqrstuvwxyz1234567890'') :: 64 word)
       = 6985544498910593518"
  by code_simp

end
